theory Spec2Isabelle
  imports Main "HOL-Library.Sublist"
begin

section \<open>JavaScript strings and JSON values\<close>

text \<open>
  A JavaScript string is a sequence of UTF-16 code units. The model covers the strings
  whose code units are below 256 (the Latin-1 range), one \<open>char\<close> per code unit, so that
  \<open>length\<close> is the source's \<open>.length\<close>. Inside that range \<open>isWhiteSpace\<close> is the set
  that both \<open>\s\<close> and \<open>trim()\<close> use, and \<open>toLowerCase\<close> is the Unicode lower-casing.
\<close>

definition isWhiteSpace :: "char \<Rightarrow> bool" where
  "isWhiteSpace c = ((of_char c :: nat) \<in> {9, 10, 11, 12, 13, 32, 160})"

definition lowerChar :: "char \<Rightarrow> char" where
  "lowerChar c =
     (let n = (of_char c :: nat)
      in if (65 \<le> n \<and> n \<le> 90) \<or> (192 \<le> n \<and> n \<le> 222 \<and> n \<noteq> 215)
         then char_of (n + 32) else c)"

definition toLowerCase :: "string \<Rightarrow> string" where
  "toLowerCase s = map lowerChar s"

definition trim :: "string \<Rightarrow> string" where
  "trim s = rev (dropWhile isWhiteSpace (rev (dropWhile isWhiteSpace s)))"

text \<open>\<^verbatim>\<open>str.trim().slice(0, 10000)\<close>\<close>

definition sanitizeString :: "string \<Rightarrow> string" where
  "sanitizeString str = take 10000 (trim str)"

text \<open>\<^verbatim>\<open>s.split(sep)\<close> for a one-character separator.\<close>

fun split_str :: "char \<Rightarrow> string \<Rightarrow> string list" where
  "split_str sep [] = [[]]"
| "split_str sep (c # cs) =
     (if c = sep then [] # split_str sep cs
      else (case split_str sep cs of [] \<Rightarrow> [[c]] | x # xs \<Rightarrow> (c # x) # xs))"

text \<open>\<^verbatim>\<open>s.includes(t)\<close> and \<^verbatim>\<open>s.replace(t, '')\<close> with a string pattern: the latter removes
  the first occurrence of \<open>t\<close> only.\<close>

fun str_includes :: "string \<Rightarrow> string \<Rightarrow> bool" where
  "str_includes [] t = (t = [])"
| "str_includes (c # cs) t = (prefix t (c # cs) \<or> str_includes cs t)"

fun replace_first :: "string \<Rightarrow> string \<Rightarrow> string" where
  "replace_first [] t = []"
| "replace_first (c # cs) t =
     (if prefix t (c # cs) then drop (length t) (c # cs) else c # replace_first cs t)"

text \<open>Decimal rendering of an array index, as \<^verbatim>\<open>Object.entries\<close> names the entries of an array.\<close>

function string_of_nat :: "nat \<Rightarrow> string" where
  "string_of_nat n =
     (if n < 10 then [char_of (48 + n)]
      else string_of_nat (n div 10) @ [char_of (48 + n mod 10)])"
  by pat_completeness auto
termination
  by (relation "measure id") auto

text \<open>
  The result of \<^verbatim>\<open>await c.req.json()\<close>. Numbers are kept as integers: the handlers only
  test them for truthiness and for their type. An object lists its own properties.
\<close>

datatype json =
    JNull
  | JBool bool
  | JNum int
  | JStr string
  | JArr "json list"
  | JObj "(string \<times> json) list"

text \<open>A property read \<^verbatim>\<open>body.key\<close>; \<open>None\<close> is \<^verbatim>\<open>undefined\<close>. None of the keys the handlers
  read is a property of a string, number, boolean or array.\<close>

fun field :: "string \<Rightarrow> json \<Rightarrow> json option" where
  "field k (JObj kvs) = map_of kvs k"
| "field k _ = None"

text \<open>JavaScript truthiness of a value that may be \<^verbatim>\<open>undefined\<close>.\<close>

fun truthy :: "json option \<Rightarrow> bool" where
  "truthy None = False"
| "truthy (Some JNull) = False"
| "truthy (Some (JBool b)) = b"
| "truthy (Some (JNum n)) = (n \<noteq> 0)"
| "truthy (Some (JStr s)) = (s \<noteq> [])"
| "truthy (Some (JArr xs)) = True"
| "truthy (Some (JObj kvs)) = True"

section \<open>Input validation utilities\<close>

text \<open>\<^verbatim>\<open>/^[^\s@]+@[^\s@]+\.[^\s@]+$/\<close>: a non-empty local part, one \<open>@\<close>, and a domain part
  holding a dot that is neither its first nor its last character; no white space.\<close>

definition EMAIL_REGEX_test :: "string \<Rightarrow> bool" where
  "EMAIL_REGEX_test e =
     (let l = takeWhile (\<lambda>c. c \<noteq> CHR ''@'') e;
          r = dropWhile (\<lambda>c. c \<noteq> CHR ''@'') e
      in l \<noteq> [] \<and> \<not> list_ex isWhiteSpace l \<and>
         (case r of
            [] \<Rightarrow> False
          | _ # d \<Rightarrow> CHR ''@'' \<notin> set d \<and> \<not> list_ex isWhiteSpace d \<and>
                     CHR ''.'' \<in> set (butlast (tl d))))"

definition isHexDigit :: "char \<Rightarrow> bool" where
  "isHexDigit c =
     (let n = (of_char c :: nat)
      in (48 \<le> n \<and> n \<le> 57) \<or> (97 \<le> n \<and> n \<le> 102) \<or> (65 \<le> n \<and> n \<le> 70))"

text \<open>\<^verbatim>\<open>/^[0-9a-f]{8}-[0-9a-f]{4}-[0-9a-f]{4}-[0-9a-f]{4}-[0-9a-f]{12}$/i\<close>: 36 characters,
  hyphens at the indices 8, 13, 18 and 23, hexadecimal digits of either case elsewhere.\<close>

definition UUID_REGEX_test :: "string \<Rightarrow> bool" where
  "UUID_REGEX_test s =
     (length s = 36 \<and>
      list_all (\<lambda>(i, c). if i \<in> {8, 13, 18, 23} then c = CHR ''-'' else isHexDigit c)
        (enumerate 0 s))"

definition validateEmail :: "json option \<Rightarrow> bool" where
  "validateEmail email =
     (case email of Some (JStr e) \<Rightarrow> EMAIL_REGEX_test e \<and> length e \<le> 254 | _ \<Rightarrow> False)"

definition validateName :: "json option \<Rightarrow> bool" where
  "validateName name =
     (case name of Some (JStr n) \<Rightarrow> length (trim n) \<ge> 1 \<and> length n \<le> 100 | _ \<Rightarrow> False)"

definition validateSessionName :: "json option \<Rightarrow> bool" where
  "validateSessionName name =
     (case name of Some (JStr n) \<Rightarrow> length (trim n) \<ge> 1 \<and> length n \<le> 200 | _ \<Rightarrow> False)"

text \<open>The session id is a path parameter, so always a string.\<close>

definition validateUUID :: "string \<Rightarrow> bool" where
  "validateUUID ident = UUID_REGEX_test ident"

text \<open>An array element passes when it is a non-null object (an array is one too, and has
  neither property) with a valid \<open>email\<close> and a valid \<open>name\<close>.\<close>

fun validStudent :: "json \<Rightarrow> bool" where
  "validStudent (JObj kvs) =
     (validateEmail (map_of kvs ''email'') \<and> validateName (map_of kvs ''name''))"
| "validStudent _ = False"

definition validateStudentArray :: "json option \<Rightarrow> bool" where
  "validateStudentArray students =
     (case students of
        Some (JArr xs) \<Rightarrow> if length xs > 500 then False else list_all validStudent xs
      | _ \<Rightarrow> False)"

definition validateTextContent :: "json option \<Rightarrow> nat \<Rightarrow> bool" where
  "validateTextContent text maxLength =
     (case text of Some (JStr t) \<Rightarrow> length t \<le> maxLength | _ \<Rightarrow> False)"

section \<open>Data model\<close>

text \<open>A roster entry, as the roster handler stores it.\<close>

record student =
  email :: string
  name :: string

text \<open>The session object. The timestamps of the phase transitions are absent until the
  transition is taken; the organizer's email is absent for an identity without one.\<close>

record session =
  session_id :: string
  organizerId :: string
  organizerEmail :: "string option"
  session_name :: string
  status :: string
  students :: "student list"
  createdAt :: string
  startedAt :: "string option"
  advancedAt :: "string option"
  completedAt :: "string option"
  reopenedAt :: "string option"
  archivedAt :: "string option"

record reflection =
  r_sessionId :: string
  studentEmail :: string
  responses :: "string \<rightharpoonup> string"
  screenshots :: "json list"
  completed :: bool
  updatedAt :: string

record feedback =
  f_sessionId :: string
  fromStudent :: string
  toStudent :: string
  critiques :: string
  questions :: string
  f_createdAt :: string

text \<open>The identity that \<^verbatim>\<open>supabase.auth.getUser\<close> resolves a token to: \<open>user.id\<close>,
  \<open>user.email\<close> and the role that signup wrote into \<open>user.user_metadata.role\<close>.\<close>

record user =
  user_id :: string
  user_email :: "string option"
  user_role :: "string option"

definition VALID_ROLES :: "string list" where
  "VALID_ROLES = [''organizer'', ''student'']"

definition VALID_SESSION_STATUSES :: "string list" where
  "VALID_SESSION_STATUSES = [''setup'', ''reflection'', ''critique'', ''complete'', ''archived'']"

text \<open>An error response \<^verbatim>\<open>c.json({ error: message }, status)\<close>. The statuses are those of the
  error kinds: 400 is InvalidArgument or, for a phase guard, InvalidTransition; 401 is
  Unauthenticated; 403 is Forbidden; 404 is NotFound.\<close>

datatype error = Error nat string

section \<open>The record store\<close>

text \<open>
  Modelled from the spec: the module \<^verbatim>\<open>kv_store.ts\<close> (\<open>get\<close>, \<open>set\<close>, \<open>getByPrefix\<close>) is not
  among the sources. The spec describes it as a key-value store with point get and set by
  exact key and scan by prefix; the migration makes the key the primary key of the table.
  A table is an association list from keys to values: \<open>kv_set\<close> overwrites the value of a
  key that is present and adds the key otherwise, \<open>kv_getByPrefix\<close> returns the values of
  all keys that start with the prefix.
\<close>

definition kv_get :: "(string \<times> 'v) list \<Rightarrow> string \<Rightarrow> 'v option" where
  "kv_get t k = map_of t k"

fun kv_set :: "(string \<times> 'v) list \<Rightarrow> string \<Rightarrow> 'v \<Rightarrow> (string \<times> 'v) list" where
  "kv_set [] k v = [(k, v)]"
| "kv_set ((k', v') # t) k v = (if k' = k then (k, v) # t else (k', v') # kv_set t k v)"

definition kv_getByPrefix :: "(string \<times> 'v) list \<Rightarrow> string \<Rightarrow> 'v list" where
  "kv_getByPrefix t p = map snd (filter (\<lambda>kv. prefix p (fst kv)) t)"

text \<open>
  The handlers write three kinds of object, under keys that start with \<open>session:\<close>,
  \<open>reflection:\<close> and \<open>feedback:\<close>. No key starts with two of these, so the one table of
  the source is kept as three tables, each under the full keys of the source.
\<close>

record store =
  sessions :: "(string \<times> session) list"
  reflections :: "(string \<times> reflection) list"
  feedbacks :: "(string \<times> feedback) list"

definition empty_store :: store where
  "empty_store = \<lparr>sessions = [], reflections = [], feedbacks = []\<rparr>"

definition sessionKey :: "string \<Rightarrow> string" where
  "sessionKey sessionId = ''session:'' @ sessionId"

definition reflectionPrefix :: "string \<Rightarrow> string" where
  "reflectionPrefix sessionId = ''reflection:'' @ sessionId @ '':''"

definition reflectionKey :: "string \<Rightarrow> string \<Rightarrow> string" where
  "reflectionKey sessionId e = ''reflection:'' @ sessionId @ '':'' @ e"

definition feedbackPrefix :: "string \<Rightarrow> string" where
  "feedbackPrefix sessionId = ''feedback:'' @ sessionId @ '':''"

definition feedbackKey :: "string \<Rightarrow> string \<Rightarrow> string \<Rightarrow> string" where
  "feedbackKey sessionId fromE toE = ''feedback:'' @ sessionId @ '':'' @ fromE @ '':'' @ toE"

section \<open>Identity context\<close>

text \<open>\<^verbatim>\<open>c.req.header('Authorization')?.split(' ')[1]\<close>\<close>

definition accessToken :: "string option \<Rightarrow> string option" where
  "accessToken hdr =
     (case hdr of
        None \<Rightarrow> None
      | Some h \<Rightarrow> (case split_str (CHR '' '') h of _ # t # _ \<Rightarrow> Some t | _ \<Rightarrow> None))"

text \<open>
  The prologue every handler starts with. \<open>getUser\<close> is the identity provider: it gives
  \<open>None\<close> when it reports an error or no user. A missing or empty token is answered with
  401 and the handler's own message \<open>missing\<close>; a token that resolves to no user, or to a
  user without an id, with 401 Unauthorized.
\<close>

definition authenticate ::
  "(string \<Rightarrow> user option) \<Rightarrow> string option \<Rightarrow> string \<Rightarrow> error + user" where
  "authenticate getUser hdr missing =
     (case accessToken hdr of
        None \<Rightarrow> Inl (Error 401 missing)
      | Some tok \<Rightarrow>
          if tok = [] then Inl (Error 401 missing)
          else (case getUser tok of
                  None \<Rightarrow> Inl (Error 401 ''Unauthorized'')
                | Some u \<Rightarrow>
                    if user_id u = [] then Inl (Error 401 ''Unauthorized'') else Inr u))"

text \<open>The handlers that need the caller's email also refuse an identity whose email is
  absent or empty.\<close>

definition authenticate_email ::
  "(string \<Rightarrow> user option) \<Rightarrow> string option \<Rightarrow> string \<Rightarrow> error + (user \<times> string)" where
  "authenticate_email getUser hdr missing =
     (case authenticate getUser hdr missing of
        Inl e \<Rightarrow> Inl e
      | Inr u \<Rightarrow>
          (case user_email u of
             None \<Rightarrow> Inl (Error 401 ''Unauthorized'')
           | Some e \<Rightarrow> if e = [] then Inl (Error 401 ''Unauthorized'') else Inr (u, e)))"

section \<open>Session lifecycle engine\<close>

text \<open>
  A handler takes the identity provider, the Authorization header, the path parameters, the
  parsed body (\<open>None\<close> when \<^verbatim>\<open>c.req.json()\<close> throws), the clock reading and the store; it
  returns the response and the store it leaves. Destructuring a body that is \<open>null\<close>
  throws, which the handler's outer \<^verbatim>\<open>catch\<close> answers with 500.
\<close>

text \<open>\<^verbatim>\<open>POST /session\<close>; \<open>newId\<close> is the value of \<^verbatim>\<open>crypto.randomUUID()\<close>. The handler
  reads nothing of the identity but its id and email. (In the handlers below, the last
  branch of a \<open>case\<close> on a value that validation has already typed cannot be reached.)\<close>

definition post_session ::
  "(string \<Rightarrow> user option) \<Rightarrow> string option \<Rightarrow> json option \<Rightarrow> string \<Rightarrow> string \<Rightarrow> store
     \<Rightarrow> (error + session) \<times> store" where
  "post_session getUser hdr body now newId s =
     (case authenticate getUser hdr ''Missing authorization token'' of
        Inl e \<Rightarrow> (Inl e, s)
      | Inr u \<Rightarrow>
          (case body of
             None \<Rightarrow> (Inl (Error 400 ''Invalid JSON body''), s)
           | Some JNull \<Rightarrow> (Inl (Error 500 ''Failed to create session''), s)
           | Some b \<Rightarrow>
               if \<not> validateSessionName (field ''name'' b)
               then (Inl (Error 400 ''Session name must be between 1 and 200 characters''), s)
               else
                 (case field ''name'' b of
                    Some (JStr n) \<Rightarrow>
                      let session = \<lparr>session_id = newId, organizerId = user_id u,
                            organizerEmail = user_email u, session_name = sanitizeString n,
                            status = ''setup'', students = [], createdAt = now,
                            startedAt = None, advancedAt = None, completedAt = None,
                            reopenedAt = None, archivedAt = None\<rparr>
                      in (Inr session,
                          s\<lparr>sessions := kv_set (sessions s) (sessionKey newId) session\<rparr>)
                  | _ \<Rightarrow> (Inl (Error 500 ''Failed to create session''), s))))"

text \<open>\<^verbatim>\<open>POST /session/:id/roster\<close>. The entries are stored with the email lower-cased and
  trimmed and the name sanitized.\<close>

definition sanitizeStudent :: "json \<Rightarrow> student" where
  "sanitizeStudent j =
     \<lparr>email = (case field ''email'' j of Some (JStr e) \<Rightarrow> trim (toLowerCase e) | _ \<Rightarrow> []),
      name = (case field ''name'' j of Some (JStr n) \<Rightarrow> sanitizeString n | _ \<Rightarrow> [])\<rparr>"

definition post_roster ::
  "(string \<Rightarrow> user option) \<Rightarrow> string option \<Rightarrow> string \<Rightarrow> json option \<Rightarrow> store
     \<Rightarrow> (error + session) \<times> store" where
  "post_roster getUser hdr sessionId body s =
     (case authenticate getUser hdr ''Missing authorization token'' of
        Inl e \<Rightarrow> (Inl e, s)
      | Inr u \<Rightarrow>
          if \<not> validateUUID sessionId then (Inl (Error 400 ''Invalid session ID format''), s)
          else
            (case body of
               None \<Rightarrow> (Inl (Error 400 ''Invalid JSON body''), s)
             | Some JNull \<Rightarrow> (Inl (Error 500 ''Failed to update roster''), s)
             | Some b \<Rightarrow>
                 if \<not> validateStudentArray (field ''students'' b)
                 then (Inl (Error 400
                   ''Invalid students array. Each student must have valid email and name.''), s)
                 else
                   (case kv_get (sessions s) (sessionKey sessionId) of
                      None \<Rightarrow> (Inl (Error 404 ''Session not found''), s)
                    | Some session \<Rightarrow>
                        if organizerId session \<noteq> user_id u then (Inl (Error 403 ''Forbidden''), s)
                        else
                          (case field ''students'' b of
                             Some (JArr xs) \<Rightarrow>
                               let session' = session\<lparr>students := map sanitizeStudent xs\<rparr>
                               in (Inr session',
                                   s\<lparr>sessions :=
                                       kv_set (sessions s) (sessionKey sessionId) session'\<rparr>)
                           | _ \<Rightarrow> (Inl (Error 500 ''Failed to update roster''), s)))))"

text \<open>\<^verbatim>\<open>POST /session/:id/start\<close>\<close>

definition post_start ::
  "(string \<Rightarrow> user option) \<Rightarrow> string option \<Rightarrow> string \<Rightarrow> string \<Rightarrow> store
     \<Rightarrow> (error + session) \<times> store" where
  "post_start getUser hdr sessionId now s =
     (case authenticate getUser hdr ''Missing authorization token'' of
        Inl e \<Rightarrow> (Inl e, s)
      | Inr u \<Rightarrow>
          if \<not> validateUUID sessionId then (Inl (Error 400 ''Invalid session ID format''), s)
          else
            (case kv_get (sessions s) (sessionKey sessionId) of
               None \<Rightarrow> (Inl (Error 404 ''Session not found''), s)
             | Some session \<Rightarrow>
                 if organizerId session \<noteq> user_id u then (Inl (Error 403 ''Forbidden''), s)
                 else if status session \<noteq> ''setup''
                 then (Inl (Error 400 ''Session must be in setup phase to start''), s)
                 else
                   let session' = session\<lparr>status := ''reflection'', startedAt := Some now\<rparr>
                   in (Inr session',
                       s\<lparr>sessions := kv_set (sessions s) (sessionKey sessionId) session'\<rparr>)))"

text \<open>\<^verbatim>\<open>POST /session/:id/advance\<close>\<close>

definition post_advance ::
  "(string \<Rightarrow> user option) \<Rightarrow> string option \<Rightarrow> string \<Rightarrow> string \<Rightarrow> store
     \<Rightarrow> (error + session) \<times> store" where
  "post_advance getUser hdr sessionId now s =
     (case authenticate getUser hdr ''Missing authorization token'' of
        Inl e \<Rightarrow> (Inl e, s)
      | Inr u \<Rightarrow>
          if \<not> validateUUID sessionId then (Inl (Error 400 ''Invalid session ID format''), s)
          else
            (case kv_get (sessions s) (sessionKey sessionId) of
               None \<Rightarrow> (Inl (Error 404 ''Session not found''), s)
             | Some session \<Rightarrow>
                 if organizerId session \<noteq> user_id u then (Inl (Error 403 ''Forbidden''), s)
                 else if status session \<noteq> ''reflection''
                 then (Inl (Error 400 ''Session must be in reflection phase to advance''), s)
                 else
                   let session' = session\<lparr>status := ''critique'', advancedAt := Some now\<rparr>
                   in (Inr session',
                       s\<lparr>sessions := kv_set (sessions s) (sessionKey sessionId) session'\<rparr>)))"

text \<open>\<^verbatim>\<open>POST /session/:id/complete\<close>\<close>

definition post_complete ::
  "(string \<Rightarrow> user option) \<Rightarrow> string option \<Rightarrow> string \<Rightarrow> string \<Rightarrow> store
     \<Rightarrow> (error + session) \<times> store" where
  "post_complete getUser hdr sessionId now s =
     (case authenticate getUser hdr ''Missing authorization token'' of
        Inl e \<Rightarrow> (Inl e, s)
      | Inr u \<Rightarrow>
          if \<not> validateUUID sessionId then (Inl (Error 400 ''Invalid session ID format''), s)
          else
            (case kv_get (sessions s) (sessionKey sessionId) of
               None \<Rightarrow> (Inl (Error 404 ''Session not found''), s)
             | Some session \<Rightarrow>
                 if organizerId session \<noteq> user_id u then (Inl (Error 403 ''Forbidden''), s)
                 else if status session \<noteq> ''critique''
                 then (Inl (Error 400 ''Session must be in critique phase to complete''), s)
                 else
                   let session' = session\<lparr>status := ''complete'', completedAt := Some now\<rparr>
                   in (Inr session',
                       s\<lparr>sessions := kv_set (sessions s) (sessionKey sessionId) session'\<rparr>)))"

text \<open>\<^verbatim>\<open>POST /session/:id/reopen\<close>. A \<open>phase\<close> that is falsy (absent, \<open>null\<close>, \<open>false\<close>, \<open>0\<close>, the
  empty string) passes the validation and reopens into \<open>critique\<close>.\<close>

definition post_reopen ::
  "(string \<Rightarrow> user option) \<Rightarrow> string option \<Rightarrow> string \<Rightarrow> json option \<Rightarrow> string \<Rightarrow> store
     \<Rightarrow> (error + session) \<times> store" where
  \<open>post_reopen getUser hdr sessionId body now s =
     (case authenticate getUser hdr ''Missing authorization token'' of
        Inl e \<Rightarrow> (Inl e, s)
      | Inr u \<Rightarrow>
          if \<not> validateUUID sessionId then (Inl (Error 400 ''Invalid session ID format''), s)
          else
            (case body of
               None \<Rightarrow> (Inl (Error 400 ''Invalid JSON body''), s)
             | Some JNull \<Rightarrow> (Inl (Error 500 ''Failed to reopen session''), s)
             | Some b \<Rightarrow>
                 let phase = field ''phase'' b in
                 if truthy phase \<and> phase \<noteq> Some (JStr ''reflection'')
                      \<and> phase \<noteq> Some (JStr ''critique'')
                 then (Inl (Error 400 ''Phase must be "reflection" or "critique"''), s)
                 else
                   (case kv_get (sessions s) (sessionKey sessionId) of
                      None \<Rightarrow> (Inl (Error 404 ''Session not found''), s)
                    | Some session \<Rightarrow>
                        if organizerId session \<noteq> user_id u then (Inl (Error 403 ''Forbidden''), s)
                        else if status session \<noteq> ''complete'' \<and> status session \<noteq> ''archived''
                        then (Inl (Error 400
                                ''Session must be complete or archived to reopen''), s)
                        else
                          let session' = session\<lparr>
                                status := (if phase = Some (JStr ''reflection'')
                                           then ''reflection'' else ''critique''),
                                reopenedAt := Some now\<rparr>
                          in (Inr session',
                              s\<lparr>sessions :=
                                  kv_set (sessions s) (sessionKey sessionId) session'\<rparr>))))\<close>

text \<open>\<^verbatim>\<open>POST /session/:id/archive\<close>: no guard on the current status.\<close>

definition post_archive ::
  "(string \<Rightarrow> user option) \<Rightarrow> string option \<Rightarrow> string \<Rightarrow> string \<Rightarrow> store
     \<Rightarrow> (error + session) \<times> store" where
  "post_archive getUser hdr sessionId now s =
     (case authenticate getUser hdr ''Missing authorization token'' of
        Inl e \<Rightarrow> (Inl e, s)
      | Inr u \<Rightarrow>
          if \<not> validateUUID sessionId then (Inl (Error 400 ''Invalid session ID format''), s)
          else
            (case kv_get (sessions s) (sessionKey sessionId) of
               None \<Rightarrow> (Inl (Error 404 ''Session not found''), s)
             | Some session \<Rightarrow>
                 if organizerId session \<noteq> user_id u then (Inl (Error 403 ''Forbidden''), s)
                 else
                   let session' = session\<lparr>status := ''archived'', archivedAt := Some now\<rparr>
                   in (Inr session',
                       s\<lparr>sessions := kv_set (sessions s) (sessionKey sessionId) session'\<rparr>)))"

text \<open>\<^verbatim>\<open>session.students?.some((s) => s.email === user.email)\<close>: strict equality of the
  stored roster email and the identity's email.\<close>

definition isStudentOf :: "session \<Rightarrow> user \<Rightarrow> bool" where
  "isStudentOf session u = list_ex (\<lambda>st. Some (email st) = user_email u) (students session)"

text \<open>\<^verbatim>\<open>GET /session/:id\<close>: a read, the store is not written.\<close>

definition get_session ::
  "(string \<Rightarrow> user option) \<Rightarrow> string option \<Rightarrow> string \<Rightarrow> store \<Rightarrow> error + session" where
  "get_session getUser hdr sessionId s =
     (case authenticate getUser hdr ''Missing authorization token'' of
        Inl e \<Rightarrow> Inl e
      | Inr u \<Rightarrow>
          if \<not> validateUUID sessionId then Inl (Error 400 ''Invalid session ID format'')
          else
            (case kv_get (sessions s) (sessionKey sessionId) of
               None \<Rightarrow> Inl (Error 404 ''Session not found'')
             | Some session \<Rightarrow>
                 let isOrganizer = (organizerId session = user_id u);
                     isStudent = isStudentOf session u
                 in if \<not> isOrganizer \<and> \<not> isStudent then Inl (Error 403 ''Forbidden'')
                    else Inr session))"

text \<open>\<^verbatim>\<open>GET /sessions\<close>, the sibling read: here the roster email and the identity's email are
  both lower-cased before they are compared.\<close>

definition get_sessions ::
  "(string \<Rightarrow> user option) \<Rightarrow> string option \<Rightarrow> store \<Rightarrow> error + session list" where
  "get_sessions getUser hdr s =
     (case authenticate getUser hdr ''Missing authorization token'' of
        Inl e \<Rightarrow> Inl e
      | Inr u \<Rightarrow>
          Inr (filter (\<lambda>x. organizerId x = user_id u \<or>
                 list_ex (\<lambda>st. Some (toLowerCase (email st)) = map_option toLowerCase (user_email u))
                   (students x))
               (kv_getByPrefix (sessions s) ''session:'')))"

section \<open>Reflection ledger\<close>

text \<open>\<^verbatim>\<open>typeof v === 'object'\<close> and \<^verbatim>\<open>Array.isArray(v)\<close> on a value that may be undefined.\<close>

fun isObject :: "json option \<Rightarrow> bool" where
  "isObject (Some JNull) = True"
| "isObject (Some (JArr xs)) = True"
| "isObject (Some (JObj kvs)) = True"
| "isObject _ = False"

fun isArray :: "json option \<Rightarrow> bool" where
  "isArray (Some (JArr xs)) = True"
| "isArray _ = False"

text \<open>\<^verbatim>\<open>Object.entries(v)\<close> for an object or an array, the only values that reach it.\<close>

fun entries :: "json \<Rightarrow> (string \<times> json) list" where
  "entries (JObj kvs) = kvs"
| "entries (JArr xs) = zip (map string_of_nat [0 ..< length xs]) xs"
| "entries _ = []"

text \<open>The loop that fills \<open>sanitizedResponses\<close>: string values are kept, sanitized, each
  under its own key (on the Deno runtime every key, \<open>__proto__\<close> included, names an own
  property); the other values are dropped.\<close>

definition sanitizeResponses :: "(string \<times> json) list \<Rightarrow> (string \<rightharpoonup> string)" where
  "sanitizeResponses kvs =
     foldl (\<lambda>m kv. case snd kv of
                      JStr v \<Rightarrow> m(fst kv \<mapsto> sanitizeString v)
                    | _ \<Rightarrow> m)
       Map.empty kvs"

text \<open>\<^verbatim>\<open>POST /reflection/:sessionId\<close>\<close>

definition post_reflection ::
  "(string \<Rightarrow> user option) \<Rightarrow> string option \<Rightarrow> string \<Rightarrow> json option \<Rightarrow> string \<Rightarrow> store
     \<Rightarrow> (error + reflection) \<times> store" where
  "post_reflection getUser hdr sessionId body now s =
     (case authenticate_email getUser hdr ''Missing authorization token'' of
        Inl e \<Rightarrow> (Inl e, s)
      | Inr (u, userEmail) \<Rightarrow>
          if \<not> validateUUID sessionId then (Inl (Error 400 ''Invalid session ID format''), s)
          else
            (case body of
               None \<Rightarrow> (Inl (Error 400 ''Invalid JSON body''), s)
             | Some JNull \<Rightarrow> (Inl (Error 500 ''Failed to save reflection''), s)
             | Some b \<Rightarrow>
                 let resp = field ''responses'' b;
                     shots = field ''screenshots'' b;
                     compl = field ''completed'' b
                 in
                 if truthy resp \<and> \<not> isObject resp
                 then (Inl (Error 400 ''Responses must be an object''), s)
                 else if truthy shots \<and>
                      (\<not> isArray shots \<or>
                       (case shots of Some (JArr xs) \<Rightarrow> length xs > 10 | _ \<Rightarrow> False))
                 then (Inl (Error 400 ''Screenshots must be an array with max 10 items''), s)
                 else
                   (case kv_get (sessions s) (sessionKey sessionId) of
                      None \<Rightarrow> (Inl (Error 404 ''Session not found''), s)
                    | Some session \<Rightarrow>
                        if \<not> isStudentOf session u
                        then (Inl (Error 403 ''Forbidden - not enrolled in session''), s)
                        else
                          let sanitizedResponses =
                                (case resp of
                                   Some r \<Rightarrow> if truthy resp then sanitizeResponses (entries r)
                                             else Map.empty
                                 | None \<Rightarrow> Map.empty);
                              r = \<lparr>r_sessionId = sessionId, studentEmail = userEmail,
                                   responses = sanitizedResponses,
                                   screenshots = (case shots of Some (JArr xs) \<Rightarrow> xs | _ \<Rightarrow> []),
                                   completed = (compl = Some (JBool True)),
                                   updatedAt = now\<rparr>
                          in (Inr r,
                              s\<lparr>reflections :=
                                  kv_set (reflections s) (reflectionKey sessionId userEmail) r\<rparr>))))"

section \<open>Feedback exchange\<close>

text \<open>\<^verbatim>\<open>POST /feedback/:sessionId\<close>\<close>

definition post_feedback ::
  "(string \<Rightarrow> user option) \<Rightarrow> string option \<Rightarrow> string \<Rightarrow> json option \<Rightarrow> string \<Rightarrow> store
     \<Rightarrow> (error + feedback) \<times> store" where
  "post_feedback getUser hdr sessionId body now s =
     (case authenticate_email getUser hdr ''Missing access token'' of
        Inl e \<Rightarrow> (Inl e, s)
      | Inr (u, userEmail) \<Rightarrow>
          if \<not> validateUUID sessionId then (Inl (Error 400 ''Invalid session ID format''), s)
          else
            (case body of
               None \<Rightarrow> (Inl (Error 400 ''Invalid JSON body''), s)
             | Some JNull \<Rightarrow> (Inl (Error 500 ''Failed to submit feedback''), s)
             | Some b \<Rightarrow>
                 if \<not> validateEmail (field ''toStudent'' b)
                 then (Inl (Error 400 ''Invalid toStudent email format''), s)
                 else
                   (case (field ''toStudent'' b, field ''critiques'' b, field ''questions'' b) of
                      (Some (JStr toSt), crit, ques) \<Rightarrow>
                        if toLowerCase toSt = toLowerCase userEmail
                        then (Inl (Error 400 ''Cannot submit feedback to yourself''), s)
                        else if \<not> validateTextContent crit 5000
                        then (Inl (Error 400 ''Critiques must be under 5000 characters''), s)
                        else if \<not> validateTextContent ques 2000
                        then (Inl (Error 400 ''Questions must be under 2000 characters''), s)
                        else
                          (case kv_get (sessions s) (sessionKey sessionId) of
                             None \<Rightarrow> (Inl (Error 404 ''Session not found''), s)
                           | Some session \<Rightarrow>
                               if \<not> isStudentOf session u
                               then (Inl (Error 403 ''Forbidden - not enrolled in session''), s)
                               else if \<not> list_ex (\<lambda>st. email st = toLowerCase toSt)
                                            (students session)
                               then (Inl (Error 400 ''Target student not found in session''), s)
                               else
                                 (case (crit, ques) of
                                    (Some (JStr cr), Some (JStr qu)) \<Rightarrow>
                                      let f = \<lparr>f_sessionId = sessionId, fromStudent = userEmail,
                                               toStudent = toLowerCase toSt,
                                               critiques = sanitizeString cr,
                                               questions = sanitizeString qu,
                                               f_createdAt = now\<rparr>
                                      in (Inr f,
                                          s\<lparr>feedbacks :=
                                              kv_set (feedbacks s)
                                                (feedbackKey sessionId userEmail
                                                   (toLowerCase toSt)) f\<rparr>)
                                  | _ \<Rightarrow> (Inl (Error 500 ''Failed to submit feedback''), s)))
                    | _ \<Rightarrow> (Inl (Error 500 ''Failed to submit feedback''), s))))"

section \<open>Progress aggregator\<close>

record student_progress =
  sp_email :: string
  sp_name :: string
  reflectionComplete :: bool
  feedbackCount :: nat

record progress =
  totalStudents :: nat
  completedReflections :: nat
  feedbackSubmissions :: nat
  studentProgress :: "student_progress list"

text \<open>The \<^verbatim>\<open>forEach\<close> that counts the feedback each author has submitted.\<close>

definition feedbackCountOf :: "feedback list \<Rightarrow> (string \<rightharpoonup> nat)" where
  "feedbackCountOf allFeedback =
     foldl (\<lambda>m f. m(fromStudent f \<mapsto> (case m (fromStudent f) of None \<Rightarrow> 0 | Some n \<Rightarrow> n) + 1))
       Map.empty allFeedback"

text \<open>\<^verbatim>\<open>GET /session/:id/progress\<close>: a read, the store is not written.\<close>

definition get_progress ::
  "(string \<Rightarrow> user option) \<Rightarrow> string option \<Rightarrow> string \<Rightarrow> store \<Rightarrow> error + progress" where
  "get_progress getUser hdr sessionId s =
     (case authenticate getUser hdr ''Missing authorization token'' of
        Inl e \<Rightarrow> Inl e
      | Inr u \<Rightarrow>
          if \<not> validateUUID sessionId then Inl (Error 400 ''Invalid session ID format'')
          else
            (case kv_get (sessions s) (sessionKey sessionId) of
               None \<Rightarrow> Inl (Error 404 ''Session not found'')
             | Some session \<Rightarrow>
                 if organizerId session \<noteq> user_id u then Inl (Error 403 ''Forbidden'')
                 else
                   let allReflections = kv_getByPrefix (reflections s) (reflectionPrefix sessionId);
                       completedRs = filter completed allReflections;
                       allFeedback = kv_getByPrefix (feedbacks s) (feedbackPrefix sessionId);
                       feedbackCnt = feedbackCountOf allFeedback
                   in Inr \<lparr>totalStudents = length (students session),
                           completedReflections = length completedRs,
                           feedbackSubmissions = length allFeedback,
                           studentProgress =
                             map (\<lambda>st. \<lparr>sp_email = email st, sp_name = name st,
                                        reflectionComplete =
                                          list_ex (\<lambda>r. studentEmail r = email st \<and> completed r)
                                            allReflections,
                                        feedbackCount =
                                          (case feedbackCnt (email st) of
                                             None \<Rightarrow> 0 | Some n \<Rightarrow> n)\<rparr>)
                               (students session)\<rparr>))"

section \<open>Guided-reflection dialogue driver\<close>

definition REFLECTION_COMPLETE :: string where
  "REFLECTION_COMPLETE = ''[REFLECTION_COMPLETE]''"

record ai_reply =
  message :: string
  isComplete :: bool

text \<open>The end of \<^verbatim>\<open>POST /ai-reflection\<close>, from the reply text \<open>aiResponse\<close> of the external
  service (the empty string when the reply carries no text) to the response.\<close>

definition ai_reflection_reply :: "string \<Rightarrow> ai_reply" where
  "ai_reflection_reply aiResponse =
     (let isCompl = str_includes aiResponse REFLECTION_COMPLETE;
          cleanResponse = trim (replace_first aiResponse REFLECTION_COMPLETE)
      in \<lparr>message = cleanResponse, isComplete = isCompl\<rparr>)"

section \<open>Reachable stores and the transition table\<close>

text \<open>The stores that requests to the writing handlers can produce from the empty store,
  whatever the identity provider, the headers, the bodies and the clock are.\<close>

inductive reachable :: "store \<Rightarrow> bool" where
  r_init: "reachable empty_store"
| r_session: "reachable s \<Longrightarrow> reachable (snd (post_session getUser hdr body now newId s))"
| r_roster: "reachable s \<Longrightarrow> reachable (snd (post_roster getUser hdr sessionId body s))"
| r_start: "reachable s \<Longrightarrow> reachable (snd (post_start getUser hdr sessionId now s))"
| r_advance: "reachable s \<Longrightarrow> reachable (snd (post_advance getUser hdr sessionId now s))"
| r_complete: "reachable s \<Longrightarrow> reachable (snd (post_complete getUser hdr sessionId now s))"
| r_reopen: "reachable s \<Longrightarrow> reachable (snd (post_reopen getUser hdr sessionId body now s))"
| r_archive: "reachable s \<Longrightarrow> reachable (snd (post_archive getUser hdr sessionId now s))"
| r_reflection:
    "reachable s \<Longrightarrow> reachable (snd (post_reflection getUser hdr sessionId body now s))"
| r_feedback:
    "reachable s \<Longrightarrow> reachable (snd (post_feedback getUser hdr sessionId body now s))"

text \<open>Every stored session has one of the defined statuses.\<close>

definition statuses_valid :: "store \<Rightarrow> bool" where
  "statuses_valid s =
     list_all (\<lambda>kv. status (snd kv) \<in> set VALID_SESSION_STATUSES) (sessions s)"

datatype action = Start | Advance | Complete | Reopen | Archive

text \<open>
  The transition table of the spec, in the spec's words, for the five phase transitions. A
  row has the columns From, Action, Guard and To. The guard is a condition on whether the
  caller is the owner of the session and on the phase that a reopen request names (\<open>None\<close>
  when it names none). The spec's reopen row, from complete or archived, with the guard
  phase in reflection and critique, to reflection or critique, is written as one row for
  each source and each phase, the phase named being the target. The archive row, from any
  state, is one row for each of the defined states. The roster condition of the start row,
  which the spec marks as not enforced, is no part of the guard.
\<close>

record row =
  row_from :: string
  row_action :: action
  row_guard :: "bool \<Rightarrow> json option \<Rightarrow> bool"
  row_to :: string

definition transition_table :: "row list" where
  "transition_table =
     [\<lparr>row_from = ''setup'', row_action = Start,
       row_guard = (\<lambda>callerIsOwner phase. callerIsOwner), row_to = ''reflection''\<rparr>,
      \<lparr>row_from = ''reflection'', row_action = Advance,
       row_guard = (\<lambda>callerIsOwner phase. callerIsOwner), row_to = ''critique''\<rparr>,
      \<lparr>row_from = ''critique'', row_action = Complete,
       row_guard = (\<lambda>callerIsOwner phase. callerIsOwner), row_to = ''complete''\<rparr>,
      \<lparr>row_from = ''complete'', row_action = Reopen,
       row_guard = (\<lambda>callerIsOwner phase. callerIsOwner \<and> phase = Some (JStr ''reflection'')),
       row_to = ''reflection''\<rparr>,
      \<lparr>row_from = ''complete'', row_action = Reopen,
       row_guard = (\<lambda>callerIsOwner phase. callerIsOwner \<and> phase = Some (JStr ''critique'')),
       row_to = ''critique''\<rparr>,
      \<lparr>row_from = ''archived'', row_action = Reopen,
       row_guard = (\<lambda>callerIsOwner phase. callerIsOwner \<and> phase = Some (JStr ''reflection'')),
       row_to = ''reflection''\<rparr>,
      \<lparr>row_from = ''archived'', row_action = Reopen,
       row_guard = (\<lambda>callerIsOwner phase. callerIsOwner \<and> phase = Some (JStr ''critique'')),
       row_to = ''critique''\<rparr>]
     @ map (\<lambda>st. \<lparr>row_from = st, row_action = Archive,
                   row_guard = (\<lambda>callerIsOwner phase. callerIsOwner), row_to = ''archived''\<rparr>)
         VALID_SESSION_STATUSES"

text \<open>A state change from \<open>st\<close> to \<open>st'\<close> by an action matches a row when the row has that
  source, action and target and its guard holds of the request.\<close>

definition follows_row :: "string \<Rightarrow> action \<Rightarrow> bool \<Rightarrow> json option \<Rightarrow> string \<Rightarrow> bool" where
  "follows_row st a callerIsOwner phase st' =
     list_ex (\<lambda>r. row_from r = st \<and> row_action r = a \<and> row_guard r callerIsOwner phase \<and>
                  row_to r = st')
       transition_table"

text \<open>A state is a valid source of an action when some row leads from it by that action.\<close>

definition valid_source :: "string \<Rightarrow> action \<Rightarrow> bool" where
  "valid_source st a = list_ex (\<lambda>r. row_from r = st \<and> row_action r = a) transition_table"

text \<open>The phase that a request body names: its \<open>phase\<close> property.\<close>

definition request_phase :: "json option \<Rightarrow> json option" where
  "request_phase body = (case body of None \<Rightarrow> None | Some b \<Rightarrow> field ''phase'' b)"

text \<open>The timestamp that the handler of each action sets beside the status.\<close>

fun stamp :: "action \<Rightarrow> string \<Rightarrow> session \<Rightarrow> session" where
  "stamp Start now x = x\<lparr>startedAt := Some now\<rparr>"
| "stamp Advance now x = x\<lparr>advancedAt := Some now\<rparr>"
| "stamp Complete now x = x\<lparr>completedAt := Some now\<rparr>"
| "stamp Reopen now x = x\<lparr>reopenedAt := Some now\<rparr>"
| "stamp Archive now x = x\<lparr>archivedAt := Some now\<rparr>"

text \<open>The handler of each action; only reopen reads a body.\<close>

fun perform ::
  "action \<Rightarrow> (string \<Rightarrow> user option) \<Rightarrow> string option \<Rightarrow> string \<Rightarrow> json option \<Rightarrow> string
     \<Rightarrow> store \<Rightarrow> (error + session) \<times> store" where
  "perform Start getUser hdr sessionId body now s = post_start getUser hdr sessionId now s"
| "perform Advance getUser hdr sessionId body now s = post_advance getUser hdr sessionId now s"
| "perform Complete getUser hdr sessionId body now s = post_complete getUser hdr sessionId now s"
| "perform Reopen getUser hdr sessionId body now s = post_reopen getUser hdr sessionId body now s"
| "perform Archive getUser hdr sessionId body now s = post_archive getUser hdr sessionId now s"

text \<open>The response of each handler's guard on the current status (InvalidTransition);
  archive has no such guard.\<close>

fun guard_error :: "action \<Rightarrow> error option" where
  "guard_error Start = Some (Error 400 ''Session must be in setup phase to start'')"
| "guard_error Advance = Some (Error 400 ''Session must be in reflection phase to advance'')"
| "guard_error Complete = Some (Error 400 ''Session must be in critique phase to complete'')"
| "guard_error Reopen = Some (Error 400 ''Session must be complete or archived to reopen'')"
| "guard_error Archive = None"

text \<open>The checks that come before the guard on the status: the caller is authenticated
  and owns the session, the id is well formed and, for reopen, the body parses to a
  non-null value whose \<open>phase\<close> is falsy, \<open>reflection\<close> or \<open>critique\<close>.\<close>

definition body_ok :: "action \<Rightarrow> json option \<Rightarrow> bool" where
  "body_ok a body =
     (if a = Reopen
      then (case body of
              None \<Rightarrow> False
            | Some b \<Rightarrow> b \<noteq> JNull \<and>
                (\<not> truthy (field ''phase'' b) \<or> field ''phase'' b = Some (JStr ''reflection'')
                   \<or> field ''phase'' b = Some (JStr ''critique'')))
      else True)"

definition owner_request ::
  "action \<Rightarrow> (string \<Rightarrow> user option) \<Rightarrow> string option \<Rightarrow> string \<Rightarrow> json option \<Rightarrow> session
     \<Rightarrow> bool" where
  "owner_request a getUser hdr sessionId body old =
     (case authenticate getUser hdr ''Missing authorization token'' of
        Inl e \<Rightarrow> False
      | Inr u \<Rightarrow> validateUUID sessionId \<and> organizerId old = user_id u \<and> body_ok a body)"


text \<open>
  The keys of the stored reflections and feedback: no key occurs twice, and every record
  sits under the key that the handlers build from its own fields, for a session id that
  passed \<open>validateUUID\<close>.
\<close>

definition keys_ok :: "store \<Rightarrow> bool" where
  "keys_ok s =
     (distinct (map fst (reflections s)) \<and> distinct (map fst (feedbacks s)) \<and>
      list_all (\<lambda>kv. validateUUID (r_sessionId (snd kv)) \<and>
                  fst kv = reflectionKey (r_sessionId (snd kv)) (studentEmail (snd kv)))
        (reflections s) \<and>
      list_all (\<lambda>kv. validateUUID (f_sessionId (snd kv)) \<and>
                  fst kv = feedbackKey (f_sessionId (snd kv)) (fromStudent (snd kv))
                             (toStudent (snd kv)))
        (feedbacks s))"

text \<open>The Feedback records stored for a session from one author to one recipient.\<close>

definition pairFeedback :: "store \<Rightarrow> string \<Rightarrow> string \<Rightarrow> string \<Rightarrow> feedback list" where
  "pairFeedback s sessionId author recipient =
     filter (\<lambda>f. f_sessionId f = sessionId \<and> fromStudent f = author \<and> toStudent f = recipient)
       (map snd (feedbacks s))"

text \<open>The Reflection and the Feedback records stored for a session.\<close>

definition sessionReflections :: "store \<Rightarrow> string \<Rightarrow> reflection list" where
  "sessionReflections s sessionId =
     filter (\<lambda>r. r_sessionId r = sessionId) (map snd (reflections s))"

definition sessionFeedback :: "store \<Rightarrow> string \<Rightarrow> feedback list" where
  "sessionFeedback s sessionId =
     filter (\<lambda>f. f_sessionId f = sessionId) (map snd (feedbacks s))"

text \<open>In the spec's words: the number of roster emails that have a stored Reflection of the
  session with \<open>completed = true\<close>.\<close>

definition rosterCompleted :: "store \<Rightarrow> string \<Rightarrow> student list \<Rightarrow> nat" where
  "rosterCompleted s sessionId roster =
     length (filter (\<lambda>st. list_ex (\<lambda>r. studentEmail r = email st \<and> completed r)
                             (sessionReflections s sessionId)) roster)"

section \<open>A worked scenario\<close>

text \<open>The session \<open>Demo\<close> of the spec's end-to-end scenario: owner O, roster Alice and Bob.
  The properties below are instantiated on it.\<close>

definition ex_sid :: string where
  "ex_sid = ''123e4567-e89b-12d3-a456-426614174000''"

definition ex_owner :: user where
  "ex_owner = \<lparr>user_id = ''u-owner'', user_email = Some ''owner@x.com'',
                user_role = Some ''organizer''\<rparr>"

definition ex_alice :: user where
  "ex_alice = \<lparr>user_id = ''u-a'', user_email = Some ''a@x.com'', user_role = Some ''student''\<rparr>"

definition ex_bob :: user where
  "ex_bob = \<lparr>user_id = ''u-b'', user_email = Some ''b@x.com'', user_role = Some ''student''\<rparr>"

text \<open>An identity whose email the provider reports with capital letters.\<close>

definition ex_mixed :: user where
  "ex_mixed = \<lparr>user_id = ''u-m'', user_email = Some ''A@X.com'', user_role = Some ''student''\<rparr>"

definition ex_getUser :: "string \<Rightarrow> user option" where
  "ex_getUser tok =
     (if tok = ''tok-o'' then Some ex_owner
      else if tok = ''tok-a'' then Some ex_alice
      else if tok = ''tok-b'' then Some ex_bob
      else if tok = ''tok-m'' then Some ex_mixed
      else None)"

definition ex_roster :: "student list" where
  "ex_roster = [\<lparr>email = ''a@x.com'', name = ''Alice''\<rparr>, \<lparr>email = ''b@x.com'', name = ''Bob''\<rparr>]"

definition ex_session :: "string \<Rightarrow> session" where
  "ex_session st = \<lparr>session_id = ex_sid, organizerId = ''u-owner'',
      organizerEmail = Some ''owner@x.com'', session_name = ''Demo'', status = st,
      students = ex_roster, createdAt = ''t0'', startedAt = None, advancedAt = None,
      completedAt = None, reopenedAt = None, archivedAt = None\<rparr>"

definition ex_store :: "string \<Rightarrow> store" where
  "ex_store st =
     \<lparr>sessions = [(sessionKey ex_sid, ex_session st)], reflections = [], feedbacks = []\<rparr>"

definition ex_reflection :: reflection where
  "ex_reflection = \<lparr>r_sessionId = ex_sid, studentEmail = ''a@x.com'', responses = Map.empty,
      screenshots = [], completed = False, updatedAt = ''t1''\<rparr>"

definition ex_entry :: json where
  "ex_entry = JObj [(''email'', JStr ''a@x.com''), (''name'', JStr ''Alice'')]"

definition ex_entry_b :: json where
  "ex_entry_b = JObj [(''email'', JStr ''B@X.com''), (''name'', JStr '' Bob '')]"

text \<open>The session and the store after the owner has submitted the roster \<open>R\<close>.\<close>

definition ex_session_R :: "json list \<Rightarrow> session" where
  "ex_session_R R = (ex_session ''setup'')\<lparr>students := map sanitizeStudent R\<rparr>"

definition ex_store_R :: "json list \<Rightarrow> store" where
  "ex_store_R R =
     \<lparr>sessions = [(sessionKey ex_sid, ex_session_R R)], reflections = [], feedbacks = []\<rparr>"

definition ex_roster_body :: "json list \<Rightarrow> json" where
  "ex_roster_body R = JObj [(''students'', JArr R)]"

definition ex_feedback :: "string \<Rightarrow> string \<Rightarrow> string \<Rightarrow> feedback" where
  "ex_feedback cr qu t = \<lparr>f_sessionId = ex_sid, fromStudent = ''b@x.com'',
      toStudent = ''a@x.com'', critiques = cr, questions = qu, f_createdAt = t\<rparr>"

definition ex_feedback_body :: "string \<Rightarrow> string \<Rightarrow> string \<Rightarrow> json" where
  "ex_feedback_body recipient cr qu =
     JObj [(''toStudent'', JStr recipient), (''critiques'', JStr cr), (''questions'', JStr qu)]"

text \<open>The store after: the owner creates \<open>Demo\<close>, enrolls Alice and starts the session, and
  Alice saves a completed reflection; then the store after the owner has replaced the
  roster by Bob alone.\<close>

definition ex_store_reflected :: store where
  "ex_store_reflected =
     snd (post_reflection ex_getUser (Some ''Bearer tok-a'') ex_sid
            (Some (JObj [(''completed'', JBool True)])) ''t2''
       (snd (post_start ex_getUser (Some ''Bearer tok-o'') ex_sid ''t1''
         (snd (post_roster ex_getUser (Some ''Bearer tok-o'') ex_sid
                 (Some (ex_roster_body [ex_entry]))
           (snd (post_session ex_getUser (Some ''Bearer tok-o'')
                   (Some (JObj [(''name'', JStr ''Demo'')])) ''t0'' ex_sid empty_store)))))))"

definition ex_store_replaced :: store where
  "ex_store_replaced =
     snd (post_roster ex_getUser (Some ''Bearer tok-o'') ex_sid
            (Some (ex_roster_body [ex_entry_b])) ex_store_reflected)"

definition ex_started :: "student list \<Rightarrow> session" where
  "ex_started roster =
     (ex_session ''reflection'')\<lparr>students := roster, startedAt := Some ''t1''\<rparr>"

definition ex_completed :: reflection where
  "ex_completed = ex_reflection\<lparr>completed := True, updatedAt := ''t2''\<rparr>"

text \<open>The store after the owner has created \<open>Demo\<close> and started, advanced and completed
  it, and the session it holds.\<close>

definition ex_store_completed :: store where
  "ex_store_completed =
     snd (post_complete ex_getUser (Some ''Bearer tok-o'') ex_sid ''t3''
       (snd (post_advance ex_getUser (Some ''Bearer tok-o'') ex_sid ''t2''
         (snd (post_start ex_getUser (Some ''Bearer tok-o'') ex_sid ''t1''
           (snd (post_session ex_getUser (Some ''Bearer tok-o'')
                   (Some (JObj [(''name'', JStr ''Demo'')])) ''t0'' ex_sid empty_store)))))))"

definition ex_session_completed :: session where
  "ex_session_completed =
     (ex_session ''complete'')\<lparr>students := [], startedAt := Some ''t1'',
        advancedAt := Some ''t2'', completedAt := Some ''t3''\<rparr>"

section \<open>Properties\<close>

subsection \<open>The record store and JSON bodies\<close>

lemma kv_get_kv_set: "kv_get (kv_set t k v) k' = (if k' = k then Some v else kv_get t k')"
  by (induction t) (auto simp: kv_get_def)

lemma field_SomeD: "field k b = Some v \<Longrightarrow> \<exists>kvs. b = JObj kvs \<and> map_of kvs k = Some v"
  by (cases b) auto

subsection \<open>Lower-casing and trimming\<close>

lemma of_char_lt: "(of_char c :: nat) < 256"
  by simp

lemma lowerChar_cases:
  "lowerChar c = c \<or>
   (lowerChar c = char_of ((of_char c :: nat) + 32) \<and>
    ((65 \<le> (of_char c :: nat) \<and> (of_char c :: nat) \<le> 90) \<or>
     (192 \<le> (of_char c :: nat) \<and> (of_char c :: nat) \<le> 222)))"
  by (simp add: lowerChar_def Let_def)

lemma of_char_lower:
  assumes "(65 \<le> (of_char c :: nat) \<and> (of_char c :: nat) \<le> 90) \<or>
     (192 \<le> (of_char c :: nat) \<and> (of_char c :: nat) \<le> 222)"
  shows "(of_char (char_of ((of_char c :: nat) + 32)) :: nat) = of_char c + 32"
proof -
  have "((of_char c :: nat) + 32) mod 256 = of_char c + 32"
    using assms by (intro mod_less) linarith
  then show ?thesis by simp
qed

lemma lowerChar_idem: "lowerChar (lowerChar c) = lowerChar c"
proof -
  consider "lowerChar c = c"
    | "lowerChar c = char_of ((of_char c :: nat) + 32)"
      "(65 \<le> (of_char c :: nat) \<and> (of_char c :: nat) \<le> 90) \<or>
       (192 \<le> (of_char c :: nat) \<and> (of_char c :: nat) \<le> 222)"
    using lowerChar_cases [of c] by blast
  then show ?thesis
  proof cases
    case 1
    then show ?thesis by simp
  next
    case 2
    let ?d = "char_of ((of_char c :: nat) + 32)"
    have n: "(of_char ?d :: nat) = of_char c + 32" using 2(2) by (rule of_char_lower)
    have "lowerChar ?d = ?d"
      unfolding lowerChar_def [of ?d] Let_def n using 2(2) by auto
    with 2(1) show ?thesis by simp
  qed
qed

lemma lowerChar_not_ws: "isWhiteSpace (lowerChar c) = isWhiteSpace c"
proof -
  consider "lowerChar c = c"
    | "lowerChar c = char_of ((of_char c :: nat) + 32)"
      "(65 \<le> (of_char c :: nat) \<and> (of_char c :: nat) \<le> 90) \<or>
       (192 \<le> (of_char c :: nat) \<and> (of_char c :: nat) \<le> 222)"
    using lowerChar_cases [of c] by blast
  then show ?thesis
  proof cases
    case 1
    then show ?thesis by simp
  next
    case 2
    let ?d = "char_of ((of_char c :: nat) + 32)"
    have n: "(of_char ?d :: nat) = of_char c + 32" using 2(2) by (rule of_char_lower)
    have "\<not> isWhiteSpace ?d"
      unfolding isWhiteSpace_def n using 2(2) by auto
    moreover have "\<not> isWhiteSpace c"
      unfolding isWhiteSpace_def using 2(2) by auto
    ultimately show ?thesis using 2(1) by simp
  qed
qed

lemma toLowerCase_idem: "toLowerCase (toLowerCase s) = toLowerCase s"
  by (simp add: toLowerCase_def lowerChar_idem)



lemma dropWhile_no_ws: "\<not> list_ex isWhiteSpace s \<Longrightarrow> dropWhile isWhiteSpace s = s"
  by (cases s) (simp_all add: list_ex_iff)

lemma trim_no_ws:
  assumes "\<not> list_ex isWhiteSpace s"
  shows "trim s = s"
proof -
  have "\<not> list_ex isWhiteSpace (rev s)" using assms by (simp add: list_ex_iff)
  then have "dropWhile isWhiteSpace (rev s) = rev s" by (rule dropWhile_no_ws)
  then show ?thesis using dropWhile_no_ws [OF assms] by (simp add: trim_def)
qed

lemma length_trim_le: "length (trim s) \<le> length s"
proof -
  have "length (trim s) \<le> length (rev (dropWhile isWhiteSpace s))"
    using length_dropWhile_le [of isWhiteSpace "rev (dropWhile isWhiteSpace s)"]
    by (simp add: trim_def)
  also have "\<dots> \<le> length s" by (simp add: length_dropWhile_le)
  finally show ?thesis .
qed

lemma sanitizeString_short: "length s \<le> 10000 \<Longrightarrow> sanitizeString s = trim s"
  using length_trim_le [of s] by (simp add: sanitizeString_def)


lemma email_no_ws:
  assumes "EMAIL_REGEX_test e"
  shows "\<not> list_ex isWhiteSpace e"
proof -
  let ?l = "takeWhile (\<lambda>c. c \<noteq> CHR ''@'') e" and ?r = "dropWhile (\<lambda>c. c \<noteq> CHR ''@'') e"
  from assms have l: "\<not> list_ex isWhiteSpace ?l"
    by (simp add: EMAIL_REGEX_test_def Let_def)
  from assms obtain x d where r: "?r = x # d" and d: "\<not> list_ex isWhiteSpace d"
    by (cases ?r) (auto simp: EMAIL_REGEX_test_def Let_def)
  have "x = hd ?r" using r by simp
  moreover have "?r \<noteq> []" using r by simp
  ultimately have x: "x = CHR ''@''" using hd_dropWhile [of "\<lambda>c. c \<noteq> CHR ''@''" e] by simp
  have "e = ?l @ ?r" by simp
  then have "set e = set ?l \<union> set ?r" by (metis set_append)
  moreover have "\<not> isWhiteSpace CHR ''@''" by (simp add: isWhiteSpace_def)
  ultimately show ?thesis
    using l d r x by (auto simp: list_ex_iff)
qed

lemma validStudent_sanitized:
  assumes "validStudent j"
  shows "\<exists>e n. field ''email'' j = Some (JStr e) \<and> field ''name'' j = Some (JStr n) \<and>
           sanitizeStudent j = \<lparr>email = toLowerCase e, name = trim n\<rparr>"
proof -
  from assms obtain kvs where j: "j = JObj kvs" by (cases j) auto
  from assms j obtain e where e: "map_of kvs ''email'' = Some (JStr e)" "EMAIL_REGEX_test e"
    by (auto simp: validateEmail_def split: option.splits json.splits)
  from assms j obtain n where n: "map_of kvs ''name'' = Some (JStr n)" "length n \<le> 100"
    by (auto simp: validateName_def split: option.splits json.splits)
  have "\<not> list_ex isWhiteSpace (toLowerCase e)"
    using email_no_ws [OF e(2)] by (simp add: toLowerCase_def list_ex_iff lowerChar_not_ws)
  then have "trim (toLowerCase e) = toLowerCase e" by (rule trim_no_ws)
  moreover have "sanitizeString n = trim n" using n(2) by (simp add: sanitizeString_short)
  ultimately show ?thesis
    using j e(1) n(1) by (simp add: sanitizeStudent_def)
qed

subsection \<open>The scenario, evaluated\<close>

lemma ex_lower_a: "toLowerCase ''a@x.com'' = ''a@x.com''"
  by code_simp

lemma ex_lower_b: "toLowerCase ''b@x.com'' = ''b@x.com''"
  by code_simp

lemma ex_lower_A_eq: "toLowerCase ''A@X.com'' = ''a@x.com''"
  by code_simp

lemma ex_lower_B: "toLowerCase ''B@X.com'' = ''b@x.com''"
  by code_simp

lemma ex_trim_Bob: "trim '' Bob '' = ''Bob''"
  by (simp add: trim_def isWhiteSpace_def)

lemma ex_sid_valid: "validateUUID ex_sid"
  by (simp add: validateUUID_def UUID_REGEX_test_def ex_sid_def isHexDigit_def
        enumerate_eq_zip upt_rec)

lemma ex_auth_o: "authenticate ex_getUser (Some ''Bearer tok-o'') m = Inr ex_owner"
  by (simp add: authenticate_def accessToken_def ex_getUser_def ex_owner_def)

lemma ex_auth_a:
  "authenticate_email ex_getUser (Some ''Bearer tok-a'') m = Inr (ex_alice, ''a@x.com'')"
  by (simp add: authenticate_email_def authenticate_def accessToken_def ex_getUser_def
        ex_alice_def)

lemma ex_auth_b:
  "authenticate_email ex_getUser (Some ''Bearer tok-b'') m = Inr (ex_bob, ''b@x.com'')"
  by (simp add: authenticate_email_def authenticate_def accessToken_def ex_getUser_def
        ex_bob_def)

lemma ex_lookup: "kv_get (sessions (ex_store st)) (sessionKey ex_sid) = Some (ex_session st)"
  by (simp add: kv_get_def ex_store_def)

lemma ex_owner_owns: "organizerId (ex_session st) = user_id ex_owner"
  by (simp add: ex_session_def ex_owner_def)

lemma ex_alice_enrolled: "isStudentOf (ex_session st) ex_alice"
  by (simp add: isStudentOf_def ex_session_def ex_roster_def ex_alice_def)

lemma ex_bob_enrolled: "isStudentOf (ex_session st) ex_bob"
  by (simp add: isStudentOf_def ex_session_def ex_roster_def ex_bob_def)

lemma ex_entry_valid: "validStudent ex_entry"
  by (simp add: ex_entry_def validateEmail_def EMAIL_REGEX_test_def validateName_def
        trim_def isWhiteSpace_def)

lemma ex_entry_b_valid: "validStudent ex_entry_b"
  by (simp add: ex_entry_b_def validateEmail_def EMAIL_REGEX_test_def validateName_def
        trim_def isWhiteSpace_def)

lemma ex_save:
  "post_reflection ex_getUser (Some ''Bearer tok-a'') ex_sid
     (Some (JObj [(''completed'', JStr ''true'')])) ''t1'' (ex_store ''reflection'') =
   (Inr ex_reflection,
    (ex_store ''reflection'')
      \<lparr>reflections := [(reflectionKey ex_sid ''a@x.com'', ex_reflection)]\<rparr>)"
  by (simp add: post_reflection_def ex_auth_a ex_sid_valid ex_lookup ex_alice_enrolled
        ex_reflection_def) (simp add: ex_store_def Let_def)

subsection \<open>Roster replacement\<close>

lemma post_roster_accepts:
  assumes "authenticate getUser hdr ''Missing authorization token'' = Inr u"
      and "validateUUID sessionId"
      and "kv_get (sessions s) (sessionKey sessionId) = Some x"
      and "organizerId x = user_id u"
      and "field ''students'' b = Some (JArr xs)"
      and "length xs \<le> 500" and "list_all validStudent xs"
  shows "post_roster getUser hdr sessionId (Some b) s =
           (Inr (x\<lparr>students := map sanitizeStudent xs\<rparr>),
            s\<lparr>sessions := kv_set (sessions s) (sessionKey sessionId)
                              (x\<lparr>students := map sanitizeStudent xs\<rparr>)\<rparr>)"
proof -
  obtain kvs where b: "b = JObj kvs" and m: "map_of kvs ''students'' = Some (JArr xs)"
    using field_SomeD[OF assms(5)] by blast
  have "validateStudentArray (Some (JArr xs))"
    using assms(6,7) by (simp add: validateStudentArray_def)
  then show ?thesis
    using assms(1-4) b m by (simp add: post_roster_def Let_def)
qed

lemma post_roster_too_long:
  assumes "field ''students'' b = Some (JArr xs)" and "length xs \<ge> 501"
  shows "\<exists>e. post_roster getUser hdr sessionId (Some b) s = (Inl e, s) \<and>
             (\<forall>u. authenticate getUser hdr ''Missing authorization token'' = Inr u \<and>
                  validateUUID sessionId \<longrightarrow>
                  e = Error 400
                    ''Invalid students array. Each student must have valid email and name.'')"
proof -
  obtain kvs where b: "b = JObj kvs" and m: "map_of kvs ''students'' = Some (JArr xs)"
    using field_SomeD[OF assms(1)] by blast
  have "\<not> validateStudentArray (Some (JArr xs))"
    using assms(2) by (simp add: validateStudentArray_def)
  then show ?thesis
    using b m by (auto simp: post_roster_def split: sum.splits)
qed

lemma ex_roster_step:
  assumes "length R \<le> 500" and "list_all validStudent R"
  shows "post_roster ex_getUser (Some ''Bearer tok-o'') ex_sid (Some (ex_roster_body R))
           (ex_store_R R0) = (Inr (ex_session_R R), ex_store_R R)"
proof -
  have l: "kv_get (sessions (ex_store_R R0)) (sessionKey ex_sid) = Some (ex_session_R R0)"
    by (simp add: ex_store_R_def kv_get_def)
  have o: "organizerId (ex_session_R R0) = user_id ex_owner"
    by (simp add: ex_session_R_def ex_owner_owns)
  have f: "field ''students'' (ex_roster_body R) = Some (JArr R)"
    by (simp add: ex_roster_body_def)
  show ?thesis
    unfolding post_roster_accepts [OF ex_auth_o ex_sid_valid l o f assms]
    by (simp add: ex_store_R_def ex_session_R_def)
qed

subsection \<open>Claims on single handlers\<close>

text \<open>
  C10. Every Reflection record stored by a successful save has a boolean \<open>completed\<close> field
  (by its type), and it is true exactly when the body's \<open>completed\<close> property is the literal
  JSON boolean \<open>true\<close>: any other value, a truthy non-boolean or an absent property included,
  stores \<open>completed = False\<close>. The record returned is the record stored under the
  participant's key.
\<close>

theorem C10_completed_is_literal_true:
  assumes "post_reflection getUser hdr sessionId body now s = (Inr r, s')"
  shows "\<exists>b. body = Some b \<and>
             completed r = (field ''completed'' b = Some (JBool True)) \<and>
             kv_get (reflections s') (reflectionKey sessionId (studentEmail r)) = Some r"
  using assms
  by (auto simp: post_reflection_def Let_def kv_get_kv_set
           split: sum.splits prod.splits if_splits option.splits json.splits)

theorem C10_completed_is_literal_true_witness:
  "\<exists>b. Some (JObj [(''completed'', JStr ''true'')]) = Some b \<and>
       completed ex_reflection = (field ''completed'' b = Some (JBool True)) \<and>
       kv_get (reflections ((ex_store ''reflection'')
                 \<lparr>reflections := [(reflectionKey ex_sid ''a@x.com'', ex_reflection)]\<rparr>))
         (reflectionKey ex_sid (studentEmail ex_reflection)) = Some ex_reflection"
  by (rule C10_completed_is_literal_true [OF ex_save])

text \<open>What a successful roster submission stores: the session found, with its roster
  replaced by one entry for each submitted entry, in order, that carries the entry's email
  in lower case and its name trimmed.\<close>

lemma post_roster_stored:
  assumes "post_roster getUser hdr sessionId body s = (Inr x, s')"
  shows "\<exists>b xs old. body = Some b \<and> field ''students'' b = Some (JArr xs) \<and>
           kv_get (sessions s) (sessionKey sessionId) = Some old \<and>
           x = old\<lparr>students := students x\<rparr> \<and>
           students x = map sanitizeStudent xs \<and> list_all validStudent xs \<and>
           s' = s\<lparr>sessions := kv_set (sessions s) (sessionKey sessionId) x\<rparr>"
  using assms
  by (auto simp: post_roster_def Let_def validateStudentArray_def
           split: sum.splits if_splits option.splits json.splits)

lemma sanitized_roster:
  assumes "list_all validStudent xs"
  shows "list_all2 (\<lambda>j st. \<exists>e n. field ''email'' j = Some (JStr e) \<and>
                          field ''name'' j = Some (JStr n) \<and>
                          email st = toLowerCase e \<and> name st = trim n)
           xs (map sanitizeStudent xs)"
proof -
  have "\<exists>e n. field ''email'' j = Some (JStr e) \<and> field ''name'' j = Some (JStr n) \<and>
           email (sanitizeStudent j) = toLowerCase e \<and> name (sanitizeStudent j) = trim n"
    if "j \<in> set xs" for j
  proof -
    from that assms have "validStudent j" by (simp add: list_all_iff)
    from validStudent_sanitized [OF this] show ?thesis by auto
  qed
  then show ?thesis
    by (simp add: list_all2_map2 list_all2_same)
qed

text \<open>
  C7. Roster replacement is a full overwrite: when a roster \<open>R1\<close> and then a roster \<open>R2\<close> are
  submitted successfully for a session, the store differs from the one the first submission
  left in that session only, which is the session the first submission left with its roster
  replaced: the roster has one entry for each entry of \<open>R2\<close>, in order, with that entry's
  email in lower case and that entry's name trimmed, whatever \<open>R1\<close> was.
\<close>

theorem C7_roster_full_overwrite:
  assumes "post_roster getUser hdr sessionId body1 s = (Inr x1, s1)"
      and "post_roster getUser' hdr' sessionId body2 s1 = (Inr x2, s2)"
  shows "\<exists>b xs. body2 = Some b \<and> field ''students'' b = Some (JArr xs) \<and>
           kv_get (sessions s2) (sessionKey sessionId) = Some x2 \<and>
           s2 = s1\<lparr>sessions := kv_set (sessions s1) (sessionKey sessionId) x2\<rparr> \<and>
           x2 = x1\<lparr>students := students x2\<rparr> \<and>
           students x2 = map sanitizeStudent xs \<and>
           list_all2 (\<lambda>j st. \<exists>e n. field ''email'' j = Some (JStr e) \<and>
                          field ''name'' j = Some (JStr n) \<and>
                          email st = toLowerCase e \<and> name st = trim n)
             xs (students x2)"
proof -
  from post_roster_stored [OF assms(1)]
  have 1: "kv_get (sessions s1) (sessionKey sessionId) = Some x1"
    by (auto simp: kv_get_kv_set)
  from post_roster_stored [OF assms(2)]
  obtain b xs old where b: "body2 = Some b" "field ''students'' b = Some (JArr xs)"
    and old: "kv_get (sessions s1) (sessionKey sessionId) = Some old"
    and x2: "x2 = old\<lparr>students := students x2\<rparr>" "students x2 = map sanitizeStudent xs"
    and v: "list_all validStudent xs"
    and s2: "s2 = s1\<lparr>sessions := kv_set (sessions s1) (sessionKey sessionId) x2\<rparr>"
    by blast
  from old 1 have "old = x1" by simp
  moreover have "kv_get (sessions s2) (sessionKey sessionId) = Some x2"
    using s2 by (simp add: kv_get_kv_set)
  moreover note sanitized_roster [OF v]
  ultimately show ?thesis using b x2 s2 by auto
qed

theorem C7_roster_full_overwrite_witness:
  "map_option students
     (kv_get (sessions
        (snd (post_roster ex_getUser (Some ''Bearer tok-o'') ex_sid
                (Some (ex_roster_body [ex_entry_b]))
           (snd (post_roster ex_getUser (Some ''Bearer tok-o'') ex_sid
                   (Some (ex_roster_body [ex_entry])) (ex_store_R []))))))
        (sessionKey ex_sid))
     = Some [\<lparr>email = ''b@x.com'', name = ''Bob''\<rparr>]"
proof -
  have 1: "post_roster ex_getUser (Some ''Bearer tok-o'') ex_sid (Some (ex_roster_body [ex_entry]))
             (ex_store_R []) = (Inr (ex_session_R [ex_entry]), ex_store_R [ex_entry])"
    by (rule ex_roster_step) (simp_all add: ex_entry_valid)
  have 2: "post_roster ex_getUser (Some ''Bearer tok-o'') ex_sid
             (Some (ex_roster_body [ex_entry_b])) (ex_store_R [ex_entry]) =
           (Inr (ex_session_R [ex_entry_b]), ex_store_R [ex_entry_b])"
    by (rule ex_roster_step) (simp_all add: ex_entry_b_valid)
  from C7_roster_full_overwrite [OF 1 2]
  obtain b xs where b: "Some (ex_roster_body [ex_entry_b]) = Some b"
    and xs: "field ''students'' b = Some (JArr xs)"
    and g: "kv_get (sessions (ex_store_R [ex_entry_b])) (sessionKey ex_sid)
              = Some (ex_session_R [ex_entry_b])"
    and l: "list_all2 (\<lambda>j st. \<exists>e n. field ''email'' j = Some (JStr e) \<and>
                          field ''name'' j = Some (JStr n) \<and>
                          email st = toLowerCase e \<and> name st = trim n)
             xs (students (ex_session_R [ex_entry_b]))"
    by blast
  from b xs have "xs = [ex_entry_b]" by (auto simp: ex_roster_body_def)
  with l obtain st where st: "students (ex_session_R [ex_entry_b]) = [st]"
    and "\<exists>e n. field ''email'' ex_entry_b = Some (JStr e) \<and>
               field ''name'' ex_entry_b = Some (JStr n) \<and>
               email st = toLowerCase e \<and> name st = trim n"
    by (auto simp: list_all2_Cons1)
  then have "email st = ''b@x.com''" and "name st = ''Bob''"
    by (auto simp: ex_entry_b_def ex_lower_B ex_trim_Bob)
  then have "st = \<lparr>email = ''b@x.com'', name = ''Bob''\<rparr>" by (cases st) simp
  with st g show ?thesis by (simp add: 1 2)
qed

text \<open>
  C9. Roster replacement accepts a submitted list of exactly 500 valid entries (for the
  owner of an existing session the request succeeds and stores the normalized list), and
  rejects every list of 501 or more entries: the store is left as it was, and the response
  is the 400 of an invalid students array as soon as the caller is authenticated and the
  session id well formed (before that, the 401 or 400 of those checks).
\<close>

theorem C9_roster_size_boundary:
  assumes "field ''students'' b = Some (JArr xs)"
  shows "(length xs = 500 \<and> list_all validStudent xs \<and>
          authenticate getUser hdr ''Missing authorization token'' = Inr u \<and>
          validateUUID sessionId \<and>
          kv_get (sessions s) (sessionKey sessionId) = Some x \<and>
          organizerId x = user_id u \<longrightarrow>
          post_roster getUser hdr sessionId (Some b) s =
            (Inr (x\<lparr>students := map sanitizeStudent xs\<rparr>),
             s\<lparr>sessions := kv_set (sessions s) (sessionKey sessionId)
                               (x\<lparr>students := map sanitizeStudent xs\<rparr>)\<rparr>)) \<and>
         (501 \<le> length xs \<longrightarrow>
          (\<exists>e. post_roster getUser hdr sessionId (Some b) s = (Inl e, s) \<and>
             (\<forall>u'. authenticate getUser hdr ''Missing authorization token'' = Inr u' \<and>
                  validateUUID sessionId \<longrightarrow>
                  e = Error 400
                    ''Invalid students array. Each student must have valid email and name.'')))"
proof (intro conjI impI)
  assume a: "length xs = 500 \<and> list_all validStudent xs \<and>
          authenticate getUser hdr ''Missing authorization token'' = Inr u \<and>
          validateUUID sessionId \<and>
          kv_get (sessions s) (sessionKey sessionId) = Some x \<and>
          organizerId x = user_id u"
  then have "length xs \<le> 500" by simp
  with a assms show "post_roster getUser hdr sessionId (Some b) s =
            (Inr (x\<lparr>students := map sanitizeStudent xs\<rparr>),
             s\<lparr>sessions := kv_set (sessions s) (sessionKey sessionId)
                               (x\<lparr>students := map sanitizeStudent xs\<rparr>)\<rparr>)"
    by (intro post_roster_accepts) simp_all
next
  assume "501 \<le> length xs"
  with assms show "\<exists>e. post_roster getUser hdr sessionId (Some b) s = (Inl e, s) \<and>
             (\<forall>u'. authenticate getUser hdr ''Missing authorization token'' = Inr u' \<and>
                  validateUUID sessionId \<longrightarrow>
                  e = Error 400
                    ''Invalid students array. Each student must have valid email and name.'')"
    by (rule post_roster_too_long)
qed

theorem C9_roster_size_boundary_witness:
  "post_roster ex_getUser (Some ''Bearer tok-o'') ex_sid
     (Some (ex_roster_body (replicate 500 ex_entry))) (ex_store ''setup'') =
     (Inr ((ex_session ''setup'')\<lparr>students := map sanitizeStudent (replicate 500 ex_entry)\<rparr>),
      (ex_store ''setup'')\<lparr>sessions := kv_set (sessions (ex_store ''setup'')) (sessionKey ex_sid)
         ((ex_session ''setup'')\<lparr>students := map sanitizeStudent (replicate 500 ex_entry)\<rparr>)\<rparr>) \<and>
   post_roster ex_getUser (Some ''Bearer tok-o'') ex_sid
     (Some (ex_roster_body (replicate 501 ex_entry))) (ex_store ''setup'') =
     (Inl (Error 400 ''Invalid students array. Each student must have valid email and name.''),
      ex_store ''setup'')"
proof -
  have f: "field ''students'' (ex_roster_body (replicate n ex_entry)) =
             Some (JArr (replicate n ex_entry))" for n
    by (simp add: ex_roster_body_def)
  have v: "list_all validStudent (replicate 500 ex_entry)"
    by (simp add: list_all_iff ex_entry_valid)
  show ?thesis
    using C9_roster_size_boundary [OF f [of 500], of ex_getUser "Some ''Bearer tok-o''"
            ex_owner ex_sid "ex_store ''setup''" "ex_session ''setup''"]
          C9_roster_size_boundary [OF f [of 501], of ex_getUser "Some ''Bearer tok-o''"
            ex_owner ex_sid "ex_store ''setup''" "ex_session ''setup''"]
    by (auto simp: v ex_auth_o ex_sid_valid ex_lookup ex_owner_owns)
qed

text \<open>
  C5. Self-feedback is always rejected: for every authenticated caller with an email, a
  submission whose recipient equals the caller's email up to letter case is answered with a
  400 (the self-feedback message, or that of an earlier 400 check when the session id or the
  address itself is malformed) and leaves the store as it was.
\<close>

theorem C5_self_feedback_rejected:
  assumes "authenticate_email getUser hdr ''Missing access token'' = Inr (u, e)"
      and "field ''toStudent'' b = Some (JStr t)"
      and "toLowerCase t = toLowerCase e"
  shows "(\<exists>msg. post_feedback getUser hdr sessionId (Some b) now s = (Inl (Error 400 msg), s)) \<and>
         (validateUUID sessionId \<and> validateEmail (Some (JStr t)) \<longrightarrow>
          post_feedback getUser hdr sessionId (Some b) now s =
            (Inl (Error 400 ''Cannot submit feedback to yourself''), s))"
proof -
  obtain kvs where b: "b = JObj kvs" and m: "map_of kvs ''toStudent'' = Some (JStr t)"
    using field_SomeD[OF assms(2)] by blast
  show ?thesis
    using assms(1,3) b m by (auto simp: post_feedback_def)
qed

lemma ex_lower_A: "toLowerCase ''A@X.com'' = toLowerCase ''a@x.com''"
  by code_simp

theorem C5_self_feedback_rejected_witness:
  "post_feedback ex_getUser (Some ''Bearer tok-a'') ex_sid
     (Some (JObj [(''toStudent'', JStr ''A@X.com''), (''critiques'', JStr ''nice''),
                  (''questions'', JStr ''why?'')])) ''t2'' (ex_store ''critique'') =
   (Inl (Error 400 ''Cannot submit feedback to yourself''), ex_store ''critique'')"
proof -
  have v: "validateEmail (Some (JStr ''A@X.com''))"
    by (simp add: validateEmail_def EMAIL_REGEX_test_def isWhiteSpace_def)
  show ?thesis
    using C5_self_feedback_rejected [OF ex_auth_a _ ex_lower_A,
            of "JObj [(''toStudent'', JStr ''A@X.com''), (''critiques'', JStr ''nice''),
                  (''questions'', JStr ''why?'')]" ex_sid "''t2''" "ex_store ''critique''"]
    by (simp add: v ex_sid_valid)
qed

subsection \<open>The session state machine\<close>

lemma list_all_kv_set:
  "list_all P t \<Longrightarrow> P (k, v) \<Longrightarrow> list_all P (kv_set t k v)"
  by (induction t) auto

lemma kv_get_list_all: "kv_get t k = Some x \<Longrightarrow> list_all P t \<Longrightarrow> P (k, x)"
  unfolding kv_get_def by (auto simp: list_all_iff dest: map_of_SomeD)

lemma statuses_valid_set:
  "statuses_valid s \<Longrightarrow> status x \<in> set VALID_SESSION_STATUSES \<Longrightarrow>
   statuses_valid (s\<lparr>sessions := kv_set (sessions s) k x\<rparr>)"
  by (simp add: statuses_valid_def list_all_kv_set)

lemma statuses_valid_get:
  "statuses_valid s \<Longrightarrow> kv_get (sessions s) k = Some x \<Longrightarrow>
   status x \<in> set VALID_SESSION_STATUSES"
  using kv_get_list_all [of "sessions s" k x
          "\<lambda>kv. status (snd kv) \<in> set VALID_SESSION_STATUSES"]
  by (simp add: statuses_valid_def)

lemma statuses_valid_other:
  "statuses_valid (s\<lparr>reflections := r\<rparr>) = statuses_valid s"
  "statuses_valid (s\<lparr>feedbacks := f\<rparr>) = statuses_valid s"
  by (simp_all add: statuses_valid_def)

lemma post_session_statuses:
  "statuses_valid s \<Longrightarrow> statuses_valid (snd (post_session getUser hdr body now newId s))"
  by (auto simp: post_session_def Let_def VALID_SESSION_STATUSES_def
           intro!: statuses_valid_set split: sum.splits option.splits json.splits)

lemma post_roster_statuses:
  "statuses_valid s \<Longrightarrow> statuses_valid (snd (post_roster getUser hdr sessionId body s))"
  by (auto simp: post_roster_def Let_def
           intro!: statuses_valid_set dest: statuses_valid_get
           split: sum.splits option.splits json.splits)

lemma post_start_statuses:
  "statuses_valid s \<Longrightarrow> statuses_valid (snd (post_start getUser hdr sessionId now s))"
  by (auto simp: post_start_def Let_def VALID_SESSION_STATUSES_def
           intro!: statuses_valid_set split: sum.splits option.splits)

lemma post_advance_statuses:
  "statuses_valid s \<Longrightarrow> statuses_valid (snd (post_advance getUser hdr sessionId now s))"
  by (auto simp: post_advance_def Let_def VALID_SESSION_STATUSES_def
           intro!: statuses_valid_set split: sum.splits option.splits)

lemma post_complete_statuses:
  "statuses_valid s \<Longrightarrow> statuses_valid (snd (post_complete getUser hdr sessionId now s))"
  by (auto simp: post_complete_def Let_def VALID_SESSION_STATUSES_def
           intro!: statuses_valid_set split: sum.splits option.splits)

lemma post_reopen_statuses:
  "statuses_valid s \<Longrightarrow> statuses_valid (snd (post_reopen getUser hdr sessionId body now s))"
  by (auto simp: post_reopen_def Let_def VALID_SESSION_STATUSES_def
           intro!: statuses_valid_set split: sum.splits option.splits json.splits)

lemma post_archive_statuses:
  "statuses_valid s \<Longrightarrow> statuses_valid (snd (post_archive getUser hdr sessionId now s))"
  by (auto simp: post_archive_def Let_def VALID_SESSION_STATUSES_def
           intro!: statuses_valid_set split: sum.splits option.splits)

lemma post_reflection_statuses:
  "statuses_valid s \<Longrightarrow>
   statuses_valid (snd (post_reflection getUser hdr sessionId body now s))"
  by (auto simp: post_reflection_def Let_def statuses_valid_other
           split: sum.splits option.splits json.splits prod.splits)

lemma post_feedback_statuses:
  "statuses_valid s \<Longrightarrow>
   statuses_valid (snd (post_feedback getUser hdr sessionId body now s))"
  by (auto simp: post_feedback_def Let_def statuses_valid_other
           split: sum.splits option.splits json.splits prod.splits)

lemma reachable_statuses_valid: "reachable s \<Longrightarrow> statuses_valid s"
proof (induction rule: reachable.induct)
  case r_init
  show ?case by (simp add: statuses_valid_def empty_store_def)
qed (simp_all add: post_session_statuses post_roster_statuses post_start_statuses
       post_advance_statuses post_complete_statuses post_reopen_statuses
       post_archive_statuses post_reflection_statuses post_feedback_statuses)


lemma follows_row_iff:
  "follows_row st Start ow ph st' = (st = ''setup'' \<and> ow \<and> st' = ''reflection'')"
  "follows_row st Advance ow ph st' = (st = ''reflection'' \<and> ow \<and> st' = ''critique'')"
  "follows_row st Complete ow ph st' = (st = ''critique'' \<and> ow \<and> st' = ''complete'')"
  "follows_row st Reopen ow ph st' =
     ((st = ''complete'' \<or> st = ''archived'') \<and> ow \<and>
      (ph = Some (JStr ''reflection'') \<and> st' = ''reflection'' \<or>
       ph = Some (JStr ''critique'') \<and> st' = ''critique''))"
  "follows_row st Archive ow ph st' =
     (st \<in> set VALID_SESSION_STATUSES \<and> ow \<and> st' = ''archived'')"
  by (auto simp: follows_row_def transition_table_def VALID_SESSION_STATUSES_def)

lemma valid_source_iff:
  "valid_source st Start = (st = ''setup'')"
  "valid_source st Advance = (st = ''reflection'')"
  "valid_source st Complete = (st = ''critique'')"
  "valid_source st Reopen = (st = ''complete'' \<or> st = ''archived'')"
  "valid_source st Archive = (st \<in> set VALID_SESSION_STATUSES)"
  by (auto simp: valid_source_def transition_table_def VALID_SESSION_STATUSES_def)

text \<open>Every outcome of a transition request: an error leaves the store as it was; a
  success comes from the authenticated owner, follows a row of the table or is a reopen
  that names no phase, and writes back the one session with its status and the timestamp
  of the action changed.\<close>

lemma perform_outcome:
  assumes "statuses_valid s" and "perform a getUser hdr sessionId body now s = (r, s')"
  shows "case r of
           Inl e \<Rightarrow> s' = s
         | Inr x \<Rightarrow>
             (\<exists>u old. authenticate getUser hdr ''Missing authorization token'' = Inr u \<and>
                kv_get (sessions s) (sessionKey sessionId) = Some old \<and>
                organizerId old = user_id u \<and>
                (follows_row (status old) a (organizerId old = user_id u) (request_phase body)
                   (status x) \<or>
                 a = Reopen \<and> (status old = ''complete'' \<or> status old = ''archived'') \<and>
                 \<not> truthy (request_phase body) \<and> status x = ''critique'') \<and>
                x = stamp a now (old\<lparr>status := status x\<rparr>) \<and>
                s' = s\<lparr>sessions := kv_set (sessions s) (sessionKey sessionId) x\<rparr>)"
proof (cases a)
  case Start
  with assms(2) show ?thesis
    by (auto simp: post_start_def Let_def follows_row_iff
             split: sum.splits option.splits if_splits)
next
  case Advance
  with assms(2) show ?thesis
    by (auto simp: post_advance_def Let_def follows_row_iff
             split: sum.splits option.splits if_splits)
next
  case Complete
  with assms(2) show ?thesis
    by (auto simp: post_complete_def Let_def follows_row_iff
             split: sum.splits option.splits if_splits)
next
  case Reopen
  with assms(2) show ?thesis
    by (auto simp: post_reopen_def Let_def follows_row_iff request_phase_def
             split: sum.splits option.splits if_splits json.splits)
next
  case Archive
  with assms show ?thesis
    by (auto simp: post_archive_def Let_def follows_row_iff
             dest: statuses_valid_get
             split: sum.splits option.splits if_splits)
qed

lemma perform_invalid_source:
  assumes "kv_get (sessions s) (sessionKey sessionId) = Some old"
      and "\<not> valid_source (status old) a" and "statuses_valid s"
  shows "\<exists>e. perform a getUser hdr sessionId body now s = (Inl e, s) \<and>
             (owner_request a getUser hdr sessionId body old \<longrightarrow> guard_error a = Some e)"
proof (cases a)
  case Start
  with assms(1,2) show ?thesis
    by (auto simp: post_start_def valid_source_iff owner_request_def split: sum.splits)
next
  case Advance
  with assms(1,2) show ?thesis
    by (auto simp: post_advance_def valid_source_iff owner_request_def split: sum.splits)
next
  case Complete
  with assms(1,2) show ?thesis
    by (auto simp: post_complete_def valid_source_iff owner_request_def split: sum.splits)
next
  case Reopen
  with assms(1,2) show ?thesis
    by (auto simp: post_reopen_def valid_source_iff owner_request_def body_ok_def Let_def
             split: sum.splits option.splits json.splits)
next
  case Archive
  with assms show ?thesis
    by (auto simp: valid_source_iff dest: statuses_valid_get)
qed

text \<open>The owner's request from a valid source succeeds.\<close>

lemma perform_valid_source:
  assumes "kv_get (sessions s) (sessionKey sessionId) = Some old"
      and "valid_source (status old) a"
      and "owner_request a getUser hdr sessionId body old"
  shows "\<exists>x. fst (perform a getUser hdr sessionId body now s) = Inr x"
proof (cases a)
  case Start
  with assms show ?thesis
    by (auto simp: post_start_def valid_source_iff owner_request_def Let_def
             split: sum.splits)
next
  case Advance
  with assms show ?thesis
    by (auto simp: post_advance_def valid_source_iff owner_request_def Let_def
             split: sum.splits)
next
  case Complete
  with assms show ?thesis
    by (auto simp: post_complete_def valid_source_iff owner_request_def Let_def
             split: sum.splits)
next
  case Reopen
  with assms show ?thesis
    by (auto simp: post_reopen_def valid_source_iff owner_request_def body_ok_def Let_def
             split: sum.splits option.splits json.splits)
next
  case Archive
  with assms show ?thesis
    by (auto simp: post_archive_def valid_source_iff owner_request_def Let_def
             split: sum.splits)
qed

lemma perform_statuses:
  "statuses_valid s \<Longrightarrow> statuses_valid (snd (perform a getUser hdr sessionId body now s))"
  by (cases a) (simp_all add: post_start_statuses post_advance_statuses
       post_complete_statuses post_reopen_statuses post_archive_statuses)


lemma ex_created:
  "snd (post_session ex_getUser (Some ''Bearer tok-o'') (Some (JObj [(''name'', JStr ''Demo'')]))
          ''t0'' ex_sid empty_store) = ex_store_R []"
  by (simp add: post_session_def ex_auth_o validateSessionName_def trim_def isWhiteSpace_def
        sanitizeString_def empty_store_def ex_store_R_def ex_session_R_def ex_session_def
        ex_owner_def Let_def)

lemma ex_created_reachable: "reachable (ex_store_R [])"
  using r_session [OF r_init, of ex_getUser "Some ''Bearer tok-o''"
          "Some (JObj [(''name'', JStr ''Demo'')])" "''t0''" ex_sid]
  by (simp add: ex_created)

lemma ex_store_completed_eq:
  "ex_store_completed =
     \<lparr>sessions = [(sessionKey ex_sid, ex_session_completed)], reflections = [],
      feedbacks = []\<rparr>"
  unfolding ex_store_completed_def ex_created
  by (simp add: post_start_def post_advance_def post_complete_def ex_auth_o ex_sid_valid
        ex_store_R_def kv_get_def ex_session_R_def ex_session_def ex_owner_def
        ex_session_completed_def Let_def)

lemma ex_store_completed_reachable: "reachable ex_store_completed"
  unfolding ex_store_completed_def
  by (intro r_complete r_advance r_start r_session r_init)

text \<open>
  C1, as stated, fails on the guard of the reopen row. The table lets reopen go to
  reflection or critique for a phase that is one of the two. In a store that requests reach
  (the owner creates a session and starts, advances and completes it) the owner's reopen
  request with the body \<open>{}\<close>, which names no phase, succeeds and takes the session from
  complete to critique: a state change that matches no row of the table.
\<close>

theorem C1_reopen_without_phase_counterexample:
  "reachable ex_store_completed \<and>
   kv_get (sessions ex_store_completed) (sessionKey ex_sid) = Some ex_session_completed \<and>
   status ex_session_completed = ''complete'' \<and>
   organizerId ex_session_completed = user_id ex_owner \<and>
   authenticate ex_getUser (Some ''Bearer tok-o'') ''Missing authorization token''
     = Inr ex_owner \<and>
   post_reopen ex_getUser (Some ''Bearer tok-o'') ex_sid (Some (JObj [])) ''t4''
       ex_store_completed =
     (Inr (ex_session_completed\<lparr>status := ''critique'', reopenedAt := Some ''t4''\<rparr>),
      \<lparr>sessions = [(sessionKey ex_sid,
           ex_session_completed\<lparr>status := ''critique'', reopenedAt := Some ''t4''\<rparr>)],
       reflections = [], feedbacks = []\<rparr>) \<and>
   \<not> follows_row ''complete'' Reopen True (request_phase (Some (JObj []))) ''critique''"
proof -
  have 1: "kv_get (sessions ex_store_completed) (sessionKey ex_sid)
             = Some ex_session_completed"
    by (simp add: ex_store_completed_eq kv_get_def)
  have 2: "status ex_session_completed = ''complete''"
    and 3: "organizerId ex_session_completed = user_id ex_owner"
    by (simp_all add: ex_session_completed_def ex_session_def ex_owner_def)
  have 4: "post_reopen ex_getUser (Some ''Bearer tok-o'') ex_sid (Some (JObj [])) ''t4''
       ex_store_completed =
     (Inr (ex_session_completed\<lparr>status := ''critique'', reopenedAt := Some ''t4''\<rparr>),
      \<lparr>sessions = [(sessionKey ex_sid,
           ex_session_completed\<lparr>status := ''critique'', reopenedAt := Some ''t4''\<rparr>)],
       reflections = [], feedbacks = []\<rparr>)"
    by (simp add: post_reopen_def ex_auth_o ex_sid_valid 1 2 3 Let_def)
       (simp add: ex_store_completed_eq)
  have 5: "\<not> follows_row ''complete'' Reopen True (request_phase (Some (JObj []))) ''critique''"
    by (simp add: follows_row_iff request_phase_def)
  from ex_store_completed_reachable 1 2 3 4 5 ex_auth_o show ?thesis by simp
qed

text \<open>
  C1, amended. The status of every stored session is one of setup, reflection, critique,
  complete and archived, in every store that requests can reach. On such a store each of
  start, advance, complete, reopen and archive keeps that so, and every request has one of
  two outcomes. Either it is answered with an error and leaves the whole store as it was.
  Or it succeeds: then the caller is authenticated and owns the session; the change of
  status matches a row of the transition table, guard included, or is a reopen from complete
  or archived whose phase is absent or falsy, which goes to critique; and the store differs
  in that one session only, of which the status and the timestamp of the action have changed.
  A request for a session whose status is not a source of the action in the table is answered
  with an error, which is the 400 of the handler's phase guard (InvalidTransition) when the
  request passes the checks that come first (authenticated owner, well-formed id, acceptable
  body); such a request from a status that is a source succeeds.
\<close>

theorem C1_transitions_follow_table:
  "(reachable s \<longrightarrow> statuses_valid s) \<and>
   (statuses_valid s \<longrightarrow>
      statuses_valid (snd (perform a getUser hdr sessionId body now s)) \<and>
      (\<forall>r s'. perform a getUser hdr sessionId body now s = (r, s') \<longrightarrow>
         (case r of
            Inl e \<Rightarrow> s' = s
          | Inr x \<Rightarrow>
              (\<exists>u old. authenticate getUser hdr ''Missing authorization token'' = Inr u \<and>
                 kv_get (sessions s) (sessionKey sessionId) = Some old \<and>
                 organizerId old = user_id u \<and>
                 (follows_row (status old) a (organizerId old = user_id u)
                    (request_phase body) (status x) \<or>
                  a = Reopen \<and> (status old = ''complete'' \<or> status old = ''archived'') \<and>
                  \<not> truthy (request_phase body) \<and> status x = ''critique'') \<and>
                 x = stamp a now (old\<lparr>status := status x\<rparr>) \<and>
                 s' = s\<lparr>sessions := kv_set (sessions s) (sessionKey sessionId) x\<rparr>))) \<and>
      (\<forall>old. kv_get (sessions s) (sessionKey sessionId) = Some old \<and>
           \<not> valid_source (status old) a \<longrightarrow>
         (\<exists>e. perform a getUser hdr sessionId body now s = (Inl e, s) \<and>
            (owner_request a getUser hdr sessionId body old \<longrightarrow> guard_error a = Some e))) \<and>
      (\<forall>old. kv_get (sessions s) (sessionKey sessionId) = Some old \<and>
           valid_source (status old) a \<and> owner_request a getUser hdr sessionId body old \<longrightarrow>
         (\<exists>x. fst (perform a getUser hdr sessionId body now s) = Inr x)))"
proof (intro conjI impI allI)
  assume "reachable s"
  then show "statuses_valid s" by (rule reachable_statuses_valid)
next
  assume "statuses_valid s"
  then show "statuses_valid (snd (perform a getUser hdr sessionId body now s))"
    by (rule perform_statuses)
next
  fix r s'
  assume "statuses_valid s" and "perform a getUser hdr sessionId body now s = (r, s')"
  then show "case r of
            Inl e \<Rightarrow> s' = s
          | Inr x \<Rightarrow>
              (\<exists>u old. authenticate getUser hdr ''Missing authorization token'' = Inr u \<and>
                 kv_get (sessions s) (sessionKey sessionId) = Some old \<and>
                 organizerId old = user_id u \<and>
                 (follows_row (status old) a (organizerId old = user_id u)
                    (request_phase body) (status x) \<or>
                  a = Reopen \<and> (status old = ''complete'' \<or> status old = ''archived'') \<and>
                  \<not> truthy (request_phase body) \<and> status x = ''critique'') \<and>
                 x = stamp a now (old\<lparr>status := status x\<rparr>) \<and>
                 s' = s\<lparr>sessions := kv_set (sessions s) (sessionKey sessionId) x\<rparr>)"
    by (rule perform_outcome)
next
  fix old
  assume v: "statuses_valid s"
    and "kv_get (sessions s) (sessionKey sessionId) = Some old \<and>
           \<not> valid_source (status old) a"
  then have "kv_get (sessions s) (sessionKey sessionId) = Some old"
    and "\<not> valid_source (status old) a" by simp_all
  then show "\<exists>e. perform a getUser hdr sessionId body now s = (Inl e, s) \<and>
            (owner_request a getUser hdr sessionId body old \<longrightarrow> guard_error a = Some e)"
    using v by (rule perform_invalid_source)
next
  fix old
  assume "kv_get (sessions s) (sessionKey sessionId) = Some old \<and>
           valid_source (status old) a \<and> owner_request a getUser hdr sessionId body old"
  then show "\<exists>x. fst (perform a getUser hdr sessionId body now s) = Inr x"
    by (auto intro: perform_valid_source)
qed

theorem C1_transitions_follow_table_witness:
  "statuses_valid (ex_store_R []) \<and>
   perform Advance ex_getUser (Some ''Bearer tok-o'') ex_sid None ''t1'' (ex_store_R []) =
     (Inl (Error 400 ''Session must be in reflection phase to advance''), ex_store_R []) \<and>
   perform Start ex_getUser (Some ''Bearer tok-o'') ex_sid None ''t1'' (ex_store_R []) =
     (Inr ((ex_session_R [])\<lparr>status := ''reflection'', startedAt := Some ''t1''\<rparr>),
      \<lparr>sessions = [(sessionKey ex_sid,
           (ex_session_R [])\<lparr>status := ''reflection'', startedAt := Some ''t1''\<rparr>)],
       reflections = [], feedbacks = []\<rparr>)"
proof -
  note adv = C1_transitions_follow_table [of "ex_store_R []" Advance ex_getUser
      "Some ''Bearer tok-o''" ex_sid None "''t1''"]
  note sta = C1_transitions_follow_table [of "ex_store_R []" Start ex_getUser
      "Some ''Bearer tok-o''" ex_sid None "''t1''"]
  have v: "statuses_valid (ex_store_R [])"
    using adv ex_created_reachable by blast
  have l: "kv_get (sessions (ex_store_R [])) (sessionKey ex_sid) = Some (ex_session_R [])"
    by (simp add: ex_store_R_def kv_get_def)
  have st: "status (ex_session_R []) = ''setup''"
    by (simp add: ex_session_R_def ex_session_def)
  have o: "owner_request a ex_getUser (Some ''Bearer tok-o'') ex_sid None (ex_session_R [])"
    if "a \<noteq> Reopen" for a
    using that
    by (simp add: owner_request_def ex_auth_o ex_sid_valid body_ok_def ex_session_R_def
          ex_owner_owns)
  have n: "\<not> valid_source (status (ex_session_R [])) Advance"
    by (simp add: valid_source_iff st)
  obtain e where 1: "perform Advance ex_getUser (Some ''Bearer tok-o'') ex_sid None ''t1''
        (ex_store_R []) = (Inl e, ex_store_R [])" and "guard_error Advance = Some e"
    using adv v l n o [of Advance] by blast
  then have 1: "perform Advance ex_getUser (Some ''Bearer tok-o'') ex_sid None ''t1''
        (ex_store_R []) =
     (Inl (Error 400 ''Session must be in reflection phase to advance''), ex_store_R [])"
    by simp
  have vs: "valid_source (status (ex_session_R [])) Start"
    by (simp add: valid_source_iff st)
  obtain x where x: "fst (perform Start ex_getUser (Some ''Bearer tok-o'') ex_sid None ''t1''
        (ex_store_R [])) = Inr x"
    using sta v l vs o [of Start] by blast
  obtain s' where p: "perform Start ex_getUser (Some ''Bearer tok-o'') ex_sid None ''t1''
        (ex_store_R []) = (Inr x, s')"
    using x by (cases "perform Start ex_getUser (Some ''Bearer tok-o'') ex_sid None ''t1''
        (ex_store_R [])") simp
  have "case Inr x :: error + session of
          Inl e \<Rightarrow> s' = ex_store_R []
        | Inr x \<Rightarrow>
            (\<exists>u old. authenticate ex_getUser (Some ''Bearer tok-o'')
                  ''Missing authorization token'' = Inr u \<and>
               kv_get (sessions (ex_store_R [])) (sessionKey ex_sid) = Some old \<and>
               organizerId old = user_id u \<and>
               (follows_row (status old) Start (organizerId old = user_id u)
                  (request_phase None) (status x) \<or>
                Start = Reopen \<and> (status old = ''complete'' \<or> status old = ''archived'') \<and>
                \<not> truthy (request_phase None) \<and> status x = ''critique'') \<and>
               x = stamp Start ''t1'' (old\<lparr>status := status x\<rparr>) \<and>
               s' = (ex_store_R [])\<lparr>sessions :=
                      kv_set (sessions (ex_store_R [])) (sessionKey ex_sid) x\<rparr>)"
    using sta v p by blast
  then have "x = (ex_session_R [])\<lparr>status := ''reflection'', startedAt := Some ''t1''\<rparr>"
    and "s' = (ex_store_R [])\<lparr>sessions :=
                      kv_set (sessions (ex_store_R [])) (sessionKey ex_sid) x\<rparr>"
    by (auto simp: l follows_row_iff)
  then have 2: "perform Start ex_getUser (Some ''Bearer tok-o'') ex_sid None ''t1''
      (ex_store_R []) =
     (Inr ((ex_session_R [])\<lparr>status := ''reflection'', startedAt := Some ''t1''\<rparr>),
      \<lparr>sessions = [(sessionKey ex_sid,
           (ex_session_R [])\<lparr>status := ''reflection'', startedAt := Some ''t1''\<rparr>)],
       reflections = [], feedbacks = []\<rparr>)"
    using p by (simp add: ex_store_R_def)
  from v 1 2 show ?thesis by simp
qed

subsection \<open>Keys of the stored records, and feedback resubmission\<close>

lemma map_fst_kv_set:
  "map fst (kv_set t k v) = (if k \<in> set (map fst t) then map fst t else map fst t @ [k])"
  by (induction t) (force simp: image_iff)+

lemma distinct_kv_set: "distinct (map fst t) \<Longrightarrow> distinct (map fst (kv_set t k v))"
  by (simp add: map_fst_kv_set)

lemma kv_get_unique:
  "distinct (map fst t) \<Longrightarrow> kv \<in> set t \<Longrightarrow> kv_get t (fst kv) = Some (snd kv)"
  by (simp add: kv_get_def)

lemma filter_key_unique:
  "distinct (map fst t) \<Longrightarrow> kv_get t k = Some v \<Longrightarrow> filter (\<lambda>kv. fst kv = k) t = [(k, v)]"
proof (induction t)
  case Nil
  then show ?case by (simp add: kv_get_def)
next
  case (Cons a t)
  show ?case
  proof (cases "fst a = k")
    case True
    with Cons.prems have "a = (k, v)" by (cases a) (simp add: kv_get_def)
    moreover have "filter (\<lambda>kv. fst kv = k) t = []"
      using Cons.prems(1) True by (force simp: filter_empty_conv image_iff)
    ultimately show ?thesis by simp
  next
    case False
    with Cons show ?thesis by (cases a) (simp add: kv_get_def)
  qed
qed

lemma keys_ok_sessions [simp]: "keys_ok (s\<lparr>sessions := x\<rparr>) = keys_ok s"
  by (simp add: keys_ok_def)

lemma keys_ok_reflection:
  "keys_ok s \<Longrightarrow> validateUUID (r_sessionId r) \<Longrightarrow>
   k = reflectionKey (r_sessionId r) (studentEmail r) \<Longrightarrow>
   keys_ok (s\<lparr>reflections := kv_set (reflections s) k r\<rparr>)"
  by (simp add: keys_ok_def distinct_kv_set list_all_kv_set)

lemma keys_ok_feedback:
  "keys_ok s \<Longrightarrow> validateUUID (f_sessionId f) \<Longrightarrow>
   k = feedbackKey (f_sessionId f) (fromStudent f) (toStudent f) \<Longrightarrow>
   keys_ok (s\<lparr>feedbacks := kv_set (feedbacks s) k f\<rparr>)"
  by (simp add: keys_ok_def distinct_kv_set list_all_kv_set)

lemma post_session_keys:
  "keys_ok s \<Longrightarrow> keys_ok (snd (post_session getUser hdr body now newId s))"
  by (auto simp: post_session_def Let_def split: sum.splits option.splits json.splits)

lemma post_roster_keys:
  "keys_ok s \<Longrightarrow> keys_ok (snd (post_roster getUser hdr sessionId body s))"
  by (auto simp: post_roster_def Let_def split: sum.splits option.splits json.splits)

lemma perform_keys:
  "keys_ok s \<Longrightarrow> keys_ok (snd (perform a getUser hdr sessionId body now s))"
  by (cases a)
     (auto simp: post_start_def post_advance_def post_complete_def post_reopen_def
        post_archive_def Let_def split: sum.splits option.splits json.splits)

lemma post_reflection_keys:
  "keys_ok s \<Longrightarrow> keys_ok (snd (post_reflection getUser hdr sessionId body now s))"
  by (auto simp: post_reflection_def Let_def intro!: keys_ok_reflection
           split: sum.splits option.splits json.splits prod.splits)

lemma post_feedback_keys:
  "keys_ok s \<Longrightarrow> keys_ok (snd (post_feedback getUser hdr sessionId body now s))"
  by (auto simp: post_feedback_def Let_def intro!: keys_ok_feedback
           split: sum.splits option.splits json.splits prod.splits)

lemma reachable_keys_ok: "reachable s \<Longrightarrow> keys_ok s"
proof (induction rule: reachable.induct)
  case r_init
  show ?case by (simp add: keys_ok_def empty_store_def)
next
  case (r_start s getUser hdr sessionId now)
  then show ?case using perform_keys [of s Start] by simp
next
  case (r_advance s getUser hdr sessionId now)
  then show ?case using perform_keys [of s Advance] by simp
next
  case (r_complete s getUser hdr sessionId now)
  then show ?case using perform_keys [of s Complete] by simp
next
  case (r_reopen s getUser hdr sessionId body now)
  then show ?case using perform_keys [of s Reopen] by simp
next
  case (r_archive s getUser hdr sessionId now)
  then show ?case using perform_keys [of s Archive] by simp
qed (simp_all add: post_session_keys post_roster_keys post_reflection_keys post_feedback_keys)

text \<open>What a successful submission stores.\<close>

lemma post_feedback_stored:
  assumes "post_feedback getUser hdr sessionId body now s = (Inr f, s')"
  shows "s' = s\<lparr>feedbacks := kv_set (feedbacks s)
                  (feedbackKey sessionId (fromStudent f) (toStudent f)) f\<rparr> \<and>
         f_sessionId f = sessionId \<and> validateUUID sessionId"
  using assms
  by (auto simp: post_feedback_def Let_def
           split: sum.splits option.splits json.splits prod.splits if_splits)

lemma pairFeedback_after_set:
  assumes "keys_ok s" and "validateUUID (f_sessionId f)"
  shows "pairFeedback
           (s\<lparr>feedbacks := kv_set (feedbacks s)
                 (feedbackKey (f_sessionId f) (fromStudent f) (toStudent f)) f\<rparr>)
           (f_sessionId f) (fromStudent f) (toStudent f) = [f]"
proof -
  let ?k = "feedbackKey (f_sessionId f) (fromStudent f) (toStudent f)"
  let ?t = "kv_set (feedbacks s) ?k f"
  let ?s' = "s\<lparr>feedbacks := ?t\<rparr>"
  have ok: "keys_ok ?s'" using assms by (intro keys_ok_feedback) simp_all
  then have d: "distinct (map fst ?t)"
    and c: "list_all (\<lambda>kv. fst kv = feedbackKey (f_sessionId (snd kv)) (fromStudent (snd kv))
                             (toStudent (snd kv))) ?t"
    by (simp_all add: keys_ok_def list_all_iff)
  have g: "kv_get ?t ?k = Some f" by (simp add: kv_get_kv_set)
  have "filter (\<lambda>kv. f_sessionId (snd kv) = f_sessionId f \<and>
                     fromStudent (snd kv) = fromStudent f \<and> toStudent (snd kv) = toStudent f) ?t
        = filter (\<lambda>kv. fst kv = ?k) ?t"
  proof (rule filter_cong [OF refl])
    fix kv assume m: "kv \<in> set ?t"
    show "(f_sessionId (snd kv) = f_sessionId f \<and> fromStudent (snd kv) = fromStudent f \<and>
           toStudent (snd kv) = toStudent f) = (fst kv = ?k)"
    proof
      assume "f_sessionId (snd kv) = f_sessionId f \<and> fromStudent (snd kv) = fromStudent f \<and>
           toStudent (snd kv) = toStudent f"
      then show "fst kv = ?k" using c m by (auto simp: list_all_iff)
    next
      assume "fst kv = ?k"
      then have "snd kv = f" using kv_get_unique [OF d m] g by simp
      then show "f_sessionId (snd kv) = f_sessionId f \<and> fromStudent (snd kv) = fromStudent f \<and>
           toStudent (snd kv) = toStudent f" by simp
    qed
  qed
  also have "\<dots> = [(?k, f)]" by (rule filter_key_unique [OF d g])
  finally show ?thesis
    by (simp add: pairFeedback_def filter_map comp_def)
qed


text \<open>The record of a successful submission, from the request: the session of the path,
  the caller's email, the recipient of the body in lower case, the texts of the body
  trimmed, the clock reading.\<close>

lemma post_feedback_record:
  assumes "post_feedback getUser hdr sessionId body now s = (Inr f, s')"
  shows "\<exists>u e b t cr qu.
           authenticate_email getUser hdr ''Missing access token'' = Inr (u, e) \<and>
           body = Some b \<and> field ''toStudent'' b = Some (JStr t) \<and>
           field ''critiques'' b = Some (JStr cr) \<and> field ''questions'' b = Some (JStr qu) \<and>
           f = \<lparr>f_sessionId = sessionId, fromStudent = e, toStudent = toLowerCase t,
                critiques = trim cr, questions = trim qu, f_createdAt = now\<rparr>"
proof -
  from assms obtain u e where a: "authenticate_email getUser hdr ''Missing access token''
      = Inr (u, e)"
    by (auto simp: post_feedback_def split: sum.splits)
  from assms a obtain b where b: "body = Some b" "b \<noteq> JNull"
    by (auto simp: post_feedback_def split: option.splits json.splits if_splits)
  from assms a b obtain t where t: "field ''toStudent'' b = Some (JStr t)"
    by (cases b)
       (auto simp: post_feedback_def validateEmail_def
             split: option.splits json.splits if_splits)
  from assms a b t obtain cr qu where c: "field ''critiques'' b = Some (JStr cr)"
      "length cr \<le> 5000" and q: "field ''questions'' b = Some (JStr qu)" "length qu \<le> 2000"
    by (cases b)
       (auto simp: post_feedback_def validateTextContent_def
             split: option.splits json.splits if_splits)
  have "sanitizeString cr = trim cr" "sanitizeString qu = trim qu"
    using c(2) q(2) by (simp_all add: sanitizeString_short)
  with assms a b t c(1) q(1)
  have "f = \<lparr>f_sessionId = sessionId, fromStudent = e, toStudent = toLowerCase t,
                critiques = trim cr, questions = trim qu, f_createdAt = now\<rparr>"
    by (cases b)
       (auto simp: post_feedback_def Let_def split: option.splits if_splits)
  with a b t c(1) q(1) show ?thesis by blast
qed

lemma ex_feedback_step:
  assumes "length cr \<le> 5000" and "length qu \<le> 2000"
      and "validateEmail (Some (JStr recipient))" and "toLowerCase recipient = ''a@x.com''"
  shows "post_feedback ex_getUser (Some ''Bearer tok-b'') ex_sid
           (Some (ex_feedback_body recipient cr qu)) t
           ((ex_store ''critique'')\<lparr>feedbacks := fs\<rparr>) =
         (Inr (ex_feedback (sanitizeString cr) (sanitizeString qu) t),
          (ex_store ''critique'')\<lparr>feedbacks :=
             kv_set fs (feedbackKey ex_sid ''b@x.com'' ''a@x.com'')
               (ex_feedback (sanitizeString cr) (sanitizeString qu) t)\<rparr>)"
proof -
  have t: "list_ex (\<lambda>st. email st = ''a@x.com'') (students (ex_session ''critique''))"
    by (simp add: ex_session_def ex_roster_def)
  show ?thesis
    using assms
    by (simp add: post_feedback_def ex_auth_b ex_sid_valid ex_feedback_body_def ex_lookup
          ex_bob_enrolled ex_lower_b t validateTextContent_def ex_feedback_def Let_def)
qed

text \<open>
  C6. Feedback submission is idempotent per session, author and recipient: when two
  submissions in a row succeed for the same session, from the same author to the same
  recipient, the first leaves exactly one Feedback record for that ordered pair, its own,
  and the second leaves exactly one too, which is the second submission: the record of the
  session, the second caller's email, the second body's recipient in lower case, its
  critique and questions trimmed, and the time of the second request (last write wins).
  The store the first submission starts from is any store in which the records sit under
  the keys of their own fields, as in every reachable store.
\<close>

theorem C6_feedback_last_write_wins:
  assumes "keys_ok s"
      and "post_feedback getUser1 hdr1 sessionId body1 now1 s = (Inr f1, s1)"
      and "post_feedback getUser2 hdr2 sessionId body2 now2 s1 = (Inr f2, s2)"
      and "fromStudent f2 = fromStudent f1" and "toStudent f2 = toStudent f1"
  shows "(\<exists>u e b t cr qu.
            authenticate_email getUser2 hdr2 ''Missing access token'' = Inr (u, e) \<and>
            body2 = Some b \<and> field ''toStudent'' b = Some (JStr t) \<and>
            field ''critiques'' b = Some (JStr cr) \<and> field ''questions'' b = Some (JStr qu) \<and>
            f2 = \<lparr>f_sessionId = sessionId, fromStudent = e, toStudent = toLowerCase t,
                  critiques = trim cr, questions = trim qu, f_createdAt = now2\<rparr>) \<and>
         pairFeedback s1 sessionId (fromStudent f1) (toStudent f1) = [f1] \<and>
         pairFeedback s2 sessionId (fromStudent f1) (toStudent f1) = [f2] \<and>
         kv_get (feedbacks s2) (feedbackKey sessionId (fromStudent f1) (toStudent f1)) = Some f2"
proof -
  note st1 = post_feedback_stored [OF assms(2)]
  note st2 = post_feedback_stored [OF assms(3)]
  have k1: "keys_ok s1"
    using post_feedback_keys [OF assms(1), of getUser1 hdr1 sessionId body1 now1] assms(2)
    by simp
  have 1: "pairFeedback s1 sessionId (fromStudent f1) (toStudent f1) = [f1]"
    using pairFeedback_after_set [OF assms(1), of f1] st1 by simp
  have 2: "pairFeedback s2 sessionId (fromStudent f1) (toStudent f1) = [f2]"
    using pairFeedback_after_set [OF k1, of f2] st2 assms(4,5) by simp
  have 3: "kv_get (feedbacks s2) (feedbackKey sessionId (fromStudent f1) (toStudent f1))
             = Some f2"
    using st2 assms(4,5) by (simp add: kv_get_kv_set)
  from post_feedback_record [OF assms(3)] 1 2 3 show ?thesis by simp
qed

theorem C6_feedback_last_write_wins_witness:
  "pairFeedback
     (snd (post_feedback ex_getUser (Some ''Bearer tok-b'') ex_sid
             (Some (ex_feedback_body ''A@X.com'' '' better '' ''how?'')) ''t3''
        (snd (post_feedback ex_getUser (Some ''Bearer tok-b'') ex_sid
                (Some (ex_feedback_body ''a@x.com'' ''good'' ''why?'')) ''t2''
                (ex_store ''critique'')))))
     ex_sid ''b@x.com'' ''a@x.com''
   = [\<lparr>f_sessionId = ex_sid, fromStudent = ''b@x.com'', toStudent = ''a@x.com'',
       critiques = ''better'', questions = ''how?'', f_createdAt = ''t3''\<rparr>]"
proof -
  let ?f1 = "ex_feedback (sanitizeString ''good'') (sanitizeString ''why?'') ''t2''"
  let ?f2 = "ex_feedback (sanitizeString '' better '') (sanitizeString ''how?'') ''t3''"
  let ?k = "feedbackKey ex_sid ''b@x.com'' ''a@x.com''"
  have e: "(ex_store ''critique'')\<lparr>feedbacks := []\<rparr> = ex_store ''critique''"
    by (simp add: ex_store_def)
  have k: "keys_ok (ex_store ''critique'')"
    by (simp add: keys_ok_def ex_store_def)
  have va: "validateEmail (Some (JStr ''a@x.com''))" "validateEmail (Some (JStr ''A@X.com''))"
    by (simp_all add: validateEmail_def EMAIL_REGEX_test_def isWhiteSpace_def)
  have 1: "post_feedback ex_getUser (Some ''Bearer tok-b'') ex_sid
             (Some (ex_feedback_body ''a@x.com'' ''good'' ''why?'')) ''t2'' (ex_store ''critique'') =
           (Inr ?f1, (ex_store ''critique'')\<lparr>feedbacks := [(?k, ?f1)]\<rparr>)"
    using ex_feedback_step [of "''good''" "''why?''" "''a@x.com''" "''t2''" "[]"]
    by (simp add: e va ex_lower_a)
  have 2: "post_feedback ex_getUser (Some ''Bearer tok-b'') ex_sid
             (Some (ex_feedback_body ''A@X.com'' '' better '' ''how?'')) ''t3''
             ((ex_store ''critique'')\<lparr>feedbacks := [(?k, ?f1)]\<rparr>) =
           (Inr ?f2, (ex_store ''critique'')\<lparr>feedbacks := [(?k, ?f2)]\<rparr>)"
    using ex_feedback_step [of "'' better ''" "''how?''" "''A@X.com''" "''t3''" "[(?k, ?f1)]"]
    by (simp add: va ex_lower_A_eq)
  have same: "fromStudent ?f2 = fromStudent ?f1" "toStudent ?f2 = toStudent ?f1"
    by (simp_all add: ex_feedback_def)
  from C6_feedback_last_write_wins [OF k 1 2 same]
  obtain u e b t cr qu where b: "Some (ex_feedback_body ''A@X.com'' '' better '' ''how?'') = Some b"
    and a: "authenticate_email ex_getUser (Some ''Bearer tok-b'') ''Missing access token''
              = Inr (u, e)"
    and fs: "field ''toStudent'' b = Some (JStr t)" "field ''critiques'' b = Some (JStr cr)"
      "field ''questions'' b = Some (JStr qu)"
    and f2: "?f2 = \<lparr>f_sessionId = ex_sid, fromStudent = e, toStudent = toLowerCase t,
                  critiques = trim cr, questions = trim qu, f_createdAt = ''t3''\<rparr>"
    and p: "pairFeedback ((ex_store ''critique'')\<lparr>feedbacks := [(?k, ?f2)]\<rparr>) ex_sid
              (fromStudent ?f1) (toStudent ?f1) = [?f2]"
    by blast
  from b fs have "t = ''A@X.com''" "cr = '' better ''" "qu = ''how?''"
    by (auto simp: ex_feedback_body_def)
  moreover from a have "e = ''b@x.com''" by (simp add: ex_auth_b)
  moreover have "trim '' better '' = ''better''" "trim ''how?'' = ''how?''"
    by (simp_all add: trim_def isWhiteSpace_def)
  ultimately have eq: "?f2 = \<lparr>f_sessionId = ex_sid, fromStudent = ''b@x.com'',
      toStudent = ''a@x.com'', critiques = ''better'', questions = ''how?'',
      f_createdAt = ''t3''\<rparr>"
    using f2 by (simp add: ex_lower_A_eq)
  have fr: "fromStudent ?f1 = ''b@x.com''" "toStudent ?f1 = ''a@x.com''"
    by (simp_all add: ex_feedback_def)
  show ?thesis (is "?lhs = _")
  proof -
    have "?lhs = [?f2]" by (simp only: 1 2 snd_conv p [unfolded fr])
    then show ?thesis by (simp only: eq)
  qed
qed

subsection \<open>Progress aggregation\<close>

lemma validateUUID_length: "validateUUID x \<Longrightarrow> length x = 36"
  by (simp add: validateUUID_def UUID_REGEX_test_def)

lemma prefix_same_length:
  "length a = length b \<Longrightarrow> prefix (a @ c) (b @ d) = (a = b \<and> prefix c d)"
  by (induction a b rule: list_induct2) auto

lemma reflection_prefix_iff:
  assumes "validateUUID x" and "validateUUID y"
  shows "prefix (reflectionPrefix x) (reflectionKey y e) = (y = x)"
proof -
  have "length x = length y" using assms by (simp add: validateUUID_length)
  then have "prefix (x @ '':'') (y @ '':'' @ e) = (x = y \<and> prefix '':'' ('':'' @ e))"
    by (rule prefix_same_length)
  then show ?thesis
    by (auto simp: reflectionPrefix_def reflectionKey_def)
qed

lemma feedback_prefix_iff:
  assumes "validateUUID x" and "validateUUID y"
  shows "prefix (feedbackPrefix x) (feedbackKey y a b) = (y = x)"
proof -
  have "length x = length y" using assms by (simp add: validateUUID_length)
  then have "prefix (x @ '':'') (y @ '':'' @ a @ '':'' @ b)
               = (x = y \<and> prefix '':'' ('':'' @ a @ '':'' @ b))"
    by (rule prefix_same_length)
  then show ?thesis
    by (auto simp: feedbackPrefix_def feedbackKey_def)
qed

lemma getByPrefix_reflections:
  assumes "keys_ok s" and "validateUUID sessionId"
  shows "kv_getByPrefix (reflections s) (reflectionPrefix sessionId)
           = sessionReflections s sessionId"
proof -
  have "filter (\<lambda>kv. prefix (reflectionPrefix sessionId) (fst kv)) (reflections s)
          = filter (\<lambda>kv. r_sessionId (snd kv) = sessionId) (reflections s)"
  proof (rule filter_cong [OF refl])
    fix kv assume "kv \<in> set (reflections s)"
    with assms(1) have "validateUUID (r_sessionId (snd kv))"
      and "fst kv = reflectionKey (r_sessionId (snd kv)) (studentEmail (snd kv))"
      by (auto simp: keys_ok_def list_all_iff)
    then show "prefix (reflectionPrefix sessionId) (fst kv) = (r_sessionId (snd kv) = sessionId)"
      using reflection_prefix_iff [OF assms(2)] by simp
  qed
  then show ?thesis
    by (simp add: kv_getByPrefix_def sessionReflections_def filter_map comp_def)
qed

lemma getByPrefix_feedbacks:
  assumes "keys_ok s" and "validateUUID sessionId"
  shows "kv_getByPrefix (feedbacks s) (feedbackPrefix sessionId) = sessionFeedback s sessionId"
proof -
  have "filter (\<lambda>kv. prefix (feedbackPrefix sessionId) (fst kv)) (feedbacks s)
          = filter (\<lambda>kv. f_sessionId (snd kv) = sessionId) (feedbacks s)"
  proof (rule filter_cong [OF refl])
    fix kv assume "kv \<in> set (feedbacks s)"
    with assms(1) have "validateUUID (f_sessionId (snd kv))"
      and "fst kv = feedbackKey (f_sessionId (snd kv)) (fromStudent (snd kv))
                      (toStudent (snd kv))"
      by (auto simp: keys_ok_def list_all_iff)
    then show "prefix (feedbackPrefix sessionId) (fst kv) = (f_sessionId (snd kv) = sessionId)"
      using feedback_prefix_iff [OF assms(2)] by simp
  qed
  then show ?thesis
    by (simp add: kv_getByPrefix_def sessionFeedback_def filter_map comp_def)
qed

lemma distinct_map_comp: "distinct (map (\<lambda>x. g (h x)) xs) \<Longrightarrow> distinct (map h xs)"
  by (induction xs) auto

lemma sessionReflections_distinct:
  assumes "keys_ok s"
  shows "distinct (map studentEmail (sessionReflections s sessionId))"
proof -
  let ?t = "filter (\<lambda>kv. r_sessionId (snd kv) = sessionId) (reflections s)"
  have "distinct (map fst ?t)"
    using assms by (simp add: keys_ok_def distinct_map_filter)
  moreover have "map fst ?t = map (\<lambda>kv. reflectionKey sessionId (studentEmail (snd kv))) ?t"
    using assms by (auto simp: keys_ok_def list_all_iff)
  ultimately have "distinct (map (\<lambda>kv. reflectionKey sessionId (studentEmail (snd kv))) ?t)"
    by simp
  then have "distinct (map (\<lambda>kv. studentEmail (snd kv)) ?t)"
    by (rule distinct_map_comp)
  then show ?thesis
    by (simp add: sessionReflections_def filter_map comp_def)
qed

lemma roster_count:
  assumes "distinct (map email roster)" and "distinct (map studentEmail C)"
      and "set (map studentEmail C) \<subseteq> set (map email roster)"
  shows "length (filter (\<lambda>st. email st \<in> set (map studentEmail C)) roster) = length C"
proof -
  let ?S = "set (map studentEmail C)"
  have "length (filter (\<lambda>st. email st \<in> ?S) roster)
          = length (filter (\<lambda>e. e \<in> ?S) (map email roster))"
    by (simp add: filter_map comp_def)
  also have "\<dots> = card (set (filter (\<lambda>e. e \<in> ?S) (map email roster)))"
  proof -
    have "distinct (filter (\<lambda>e. e \<in> ?S) (map email roster))"
      using assms(1) by (rule distinct_filter)
    then show ?thesis by (rule distinct_card [symmetric])
  qed
  also have "set (filter (\<lambda>e. e \<in> ?S) (map email roster)) = ?S"
    using assms(3) by auto
  also have "card ?S = length (map studentEmail C)"
    using assms(2) by (rule distinct_card)
  finally show ?thesis by simp
qed

lemma rosterCompleted_eq:
  assumes "keys_ok s" and "distinct (map email roster)"
      and "list_all (\<lambda>r. studentEmail r \<in> set (map email roster))
             (filter completed (sessionReflections s sessionId))"
  shows "rosterCompleted s sessionId roster
           = length (filter completed (sessionReflections s sessionId))"
proof -
  let ?C = "filter completed (sessionReflections s sessionId)"
  have d: "distinct (map studentEmail ?C)"
    using sessionReflections_distinct [OF assms(1), of sessionId]
    by (simp add: distinct_map_filter)
  have sub: "set (map studentEmail ?C) \<subseteq> set (map email roster)"
    using assms(3) by (auto simp: list_all_iff)
  have "rosterCompleted s sessionId roster
          = length (filter (\<lambda>st. email st \<in> set (map studentEmail ?C)) roster)"
    unfolding rosterCompleted_def
    by (rule arg_cong [where f = length], rule filter_cong [OF refl])
       (force simp: list_ex_iff)
  also have "\<dots> = length ?C"
    by (rule roster_count [OF assms(2) d sub])
  finally show ?thesis .
qed

lemma get_progress_result:
  assumes "get_progress getUser hdr sessionId s = Inr p"
  shows "validateUUID sessionId \<and>
         (\<exists>x. kv_get (sessions s) (sessionKey sessionId) = Some x \<and>
              totalStudents p = length (students x)) \<and>
         completedReflections p =
           length (filter completed (kv_getByPrefix (reflections s) (reflectionPrefix sessionId))) \<and>
         feedbackSubmissions p =
           length (kv_getByPrefix (feedbacks s) (feedbackPrefix sessionId))"
  using assms
  by (auto simp: get_progress_def Let_def split: sum.splits option.splits if_splits)


lemma ex_entry_sanitized: "sanitizeStudent ex_entry = \<lparr>email = ''a@x.com'', name = ''Alice''\<rparr>"
  by (simp add: sanitizeStudent_def ex_entry_def ex_lower_a sanitizeString_def trim_def
        isWhiteSpace_def)

lemma ex_entry_b_sanitized: "sanitizeStudent ex_entry_b = \<lparr>email = ''b@x.com'', name = ''Bob''\<rparr>"
  by (simp add: sanitizeStudent_def ex_entry_b_def ex_lower_B sanitizeString_def trim_def
        isWhiteSpace_def)

lemma ex_store_reflected_eq:
  "ex_store_reflected =
     \<lparr>sessions = [(sessionKey ex_sid, ex_started [\<lparr>email = ''a@x.com'', name = ''Alice''\<rparr>])],
      reflections = [(reflectionKey ex_sid ''a@x.com'', ex_completed)], feedbacks = []\<rparr>"
proof -
  have 2: "snd (post_roster ex_getUser (Some ''Bearer tok-o'') ex_sid
                 (Some (ex_roster_body [ex_entry])) (ex_store_R [])) = ex_store_R [ex_entry]"
    using ex_roster_step [of "[ex_entry]" "[]"] by (simp add: ex_entry_valid)
  have 3: "snd (post_start ex_getUser (Some ''Bearer tok-o'') ex_sid ''t1''
                 (ex_store_R [ex_entry])) =
           \<lparr>sessions = [(sessionKey ex_sid,
               ex_started [\<lparr>email = ''a@x.com'', name = ''Alice''\<rparr>])],
            reflections = [], feedbacks = []\<rparr>"
    by (simp add: post_start_def ex_auth_o ex_sid_valid ex_store_R_def kv_get_def
          ex_session_R_def ex_session_def ex_owner_def ex_started_def ex_entry_sanitized Let_def)
  have 4: "snd (post_reflection ex_getUser (Some ''Bearer tok-a'') ex_sid
            (Some (JObj [(''completed'', JBool True)])) ''t2''
            \<lparr>sessions = [(sessionKey ex_sid,
               ex_started [\<lparr>email = ''a@x.com'', name = ''Alice''\<rparr>])],
            reflections = [], feedbacks = []\<rparr>) =
           \<lparr>sessions = [(sessionKey ex_sid,
               ex_started [\<lparr>email = ''a@x.com'', name = ''Alice''\<rparr>])],
            reflections = [(reflectionKey ex_sid ''a@x.com'', ex_completed)], feedbacks = []\<rparr>"
    by (simp add: post_reflection_def ex_auth_a ex_sid_valid kv_get_def isStudentOf_def
          ex_started_def ex_alice_def ex_completed_def ex_reflection_def Let_def)
  show ?thesis
    unfolding ex_store_reflected_def ex_created 2 3 4 ..
qed

lemma ex_store_replaced_eq:
  "ex_store_replaced =
     \<lparr>sessions = [(sessionKey ex_sid, ex_started [\<lparr>email = ''b@x.com'', name = ''Bob''\<rparr>])],
      reflections = [(reflectionKey ex_sid ''a@x.com'', ex_completed)], feedbacks = []\<rparr>"
proof -
  let ?s = "\<lparr>sessions = [(sessionKey ex_sid,
               ex_started [\<lparr>email = ''a@x.com'', name = ''Alice''\<rparr>])],
            reflections = [(reflectionKey ex_sid ''a@x.com'', ex_completed)], feedbacks = []\<rparr>"
  have l: "kv_get (sessions ?s) (sessionKey ex_sid)
             = Some (ex_started [\<lparr>email = ''a@x.com'', name = ''Alice''\<rparr>])"
    by (simp add: kv_get_def)
  have o: "organizerId (ex_started [\<lparr>email = ''a@x.com'', name = ''Alice''\<rparr>]) = user_id ex_owner"
    by (simp add: ex_started_def ex_owner_owns)
  have f: "field ''students'' (ex_roster_body [ex_entry_b]) = Some (JArr [ex_entry_b])"
    by (simp add: ex_roster_body_def)
  show ?thesis
    unfolding ex_store_replaced_def ex_store_reflected_eq
    by (subst post_roster_accepts [OF ex_auth_o ex_sid_valid l o f])
       (simp_all add: ex_entry_b_valid ex_entry_b_sanitized ex_started_def)
qed

lemma ex_store_reflected_reachable: "reachable ex_store_reflected"
  unfolding ex_store_reflected_def
  by (intro r_reflection r_start r_roster r_session r_init)

lemma ex_store_replaced_reachable: "reachable ex_store_replaced"
  unfolding ex_store_replaced_def
  by (intro r_roster ex_store_reflected_reachable)

lemma ex_prefix_reflection:
  "prefix (reflectionPrefix ex_sid) (reflectionKey ex_sid e)"
  by (simp add: reflectionPrefix_def reflectionKey_def)

lemma ex_progress_reflected:
  "get_progress ex_getUser (Some ''Bearer tok-o'') ex_sid ex_store_reflected =
     Inr \<lparr>totalStudents = 1, completedReflections = 1, feedbackSubmissions = 0,
          studentProgress = [\<lparr>sp_email = ''a@x.com'', sp_name = ''Alice'',
             reflectionComplete = True, feedbackCount = 0\<rparr>]\<rparr>"
  by (simp add: get_progress_def ex_auth_o ex_sid_valid ex_store_reflected_eq kv_get_def
        ex_started_def ex_owner_owns kv_getByPrefix_def ex_prefix_reflection ex_completed_def
        ex_reflection_def feedbackCountOf_def Let_def)

text \<open>
  C2, as stated, fails. In a store that requests reach (the owner enrolls Alice and starts
  the session, Alice saves a completed reflection, the owner replaces the roster by Bob
  alone) the aggregation reports \<open>completedReflections = 1\<close>, while no roster email has a
  completed Reflection: the roster is Bob alone, and the per-student part of the same
  response says so.
\<close>

theorem C2_roster_count_counterexample:
  "reachable ex_store_replaced \<and>
   get_progress ex_getUser (Some ''Bearer tok-o'') ex_sid ex_store_replaced =
     Inr \<lparr>totalStudents = 1, completedReflections = 1, feedbackSubmissions = 0,
          studentProgress = [\<lparr>sp_email = ''b@x.com'', sp_name = ''Bob'',
             reflectionComplete = False, feedbackCount = 0\<rparr>]\<rparr> \<and>
   map_option students (kv_get (sessions ex_store_replaced) (sessionKey ex_sid)) =
     Some [\<lparr>email = ''b@x.com'', name = ''Bob''\<rparr>] \<and>
   rosterCompleted ex_store_replaced ex_sid [\<lparr>email = ''b@x.com'', name = ''Bob''\<rparr>] = 0"
proof -
  have "get_progress ex_getUser (Some ''Bearer tok-o'') ex_sid ex_store_replaced =
     Inr \<lparr>totalStudents = 1, completedReflections = 1, feedbackSubmissions = 0,
          studentProgress = [\<lparr>sp_email = ''b@x.com'', sp_name = ''Bob'',
             reflectionComplete = False, feedbackCount = 0\<rparr>]\<rparr>"
    by (simp add: get_progress_def ex_auth_o ex_sid_valid ex_store_replaced_eq kv_get_def
        ex_started_def ex_owner_owns kv_getByPrefix_def ex_prefix_reflection ex_completed_def
        ex_reflection_def feedbackCountOf_def Let_def)
  moreover have "map_option students (kv_get (sessions ex_store_replaced) (sessionKey ex_sid)) =
     Some [\<lparr>email = ''b@x.com'', name = ''Bob''\<rparr>]"
    by (simp add: ex_store_replaced_eq kv_get_def ex_started_def)
  moreover have
    "rosterCompleted ex_store_replaced ex_sid [\<lparr>email = ''b@x.com'', name = ''Bob''\<rparr>] = 0"
    by (simp add: rosterCompleted_def sessionReflections_def ex_store_replaced_eq
          ex_completed_def ex_reflection_def)
  ultimately show ?thesis
    using ex_store_replaced_reachable by simp
qed

text \<open>
  C2, amended. In a store whose records sit under the keys of their own fields (every
  reachable store), the progress aggregation returns \<open>completedReflections\<close> equal to the
  number of Reflection records stored for the session with \<open>completed = true\<close>, whether or not
  their author is on the roster, and \<open>feedbackSubmissions\<close> equal to the number of Feedback
  records stored for the session. The former is the number of roster emails with a completed
  Reflection whenever no email occurs twice on the roster and every completed Reflection of
  the session belongs to a roster email.
\<close>

theorem C2_progress_counts:
  assumes "keys_ok s" and "get_progress getUser hdr sessionId s = Inr p"
  shows "completedReflections p = length (filter completed (sessionReflections s sessionId)) \<and>
         feedbackSubmissions p = length (sessionFeedback s sessionId) \<and>
         (\<exists>x. kv_get (sessions s) (sessionKey sessionId) = Some x \<and>
            (distinct (map email (students x)) \<and>
             list_all (\<lambda>r. studentEmail r \<in> set (map email (students x)))
               (filter completed (sessionReflections s sessionId)) \<longrightarrow>
             completedReflections p = rosterCompleted s sessionId (students x)))"
proof -
  from get_progress_result [OF assms(2)]
  obtain x where u: "validateUUID sessionId"
    and x: "kv_get (sessions s) (sessionKey sessionId) = Some x"
    and c: "completedReflections p =
           length (filter completed (kv_getByPrefix (reflections s) (reflectionPrefix sessionId)))"
    and f: "feedbackSubmissions p =
           length (kv_getByPrefix (feedbacks s) (feedbackPrefix sessionId))"
    by blast
  have c': "completedReflections p = length (filter completed (sessionReflections s sessionId))"
    using c by (simp add: getByPrefix_reflections [OF assms(1) u])
  have f': "feedbackSubmissions p = length (sessionFeedback s sessionId)"
    using f by (simp add: getByPrefix_feedbacks [OF assms(1) u])
  have "distinct (map email (students x)) \<and>
        list_all (\<lambda>r. studentEmail r \<in> set (map email (students x)))
          (filter completed (sessionReflections s sessionId)) \<longrightarrow>
        completedReflections p = rosterCompleted s sessionId (students x)"
    using rosterCompleted_eq [OF assms(1), of "students x" sessionId] c' by simp
  with c' f' x show ?thesis by blast
qed

theorem C2_progress_counts_witness:
  "length (filter completed (sessionReflections ex_store_reflected ex_sid)) = 1 \<and>
   length (sessionFeedback ex_store_reflected ex_sid) = 0 \<and>
   rosterCompleted ex_store_reflected ex_sid [\<lparr>email = ''a@x.com'', name = ''Alice''\<rparr>] = 1"
proof -
  have k: "keys_ok ex_store_reflected"
    using ex_store_reflected_reachable by (rule reachable_keys_ok)
  have x: "kv_get (sessions ex_store_reflected) (sessionKey ex_sid)
             = Some (ex_started [\<lparr>email = ''a@x.com'', name = ''Alice''\<rparr>])"
    by (simp add: ex_store_reflected_eq kv_get_def)
  have r: "sessionReflections ex_store_reflected ex_sid = [ex_completed]"
    by (simp add: sessionReflections_def ex_store_reflected_eq ex_completed_def
          ex_reflection_def)
  have l: "list_all (\<lambda>r. studentEmail r \<in> set (map email [\<lparr>email = ''a@x.com'', name = ''Alice''\<rparr>]))
             (filter completed (sessionReflections ex_store_reflected ex_sid))"
    by (simp add: r ex_completed_def ex_reflection_def)
  show ?thesis
    using C2_progress_counts [OF k ex_progress_reflected] x l
    by (simp add: ex_started_def)
qed

subsection \<open>Reading session detail\<close>

lemma ex_auth_m: "authenticate ex_getUser (Some ''Bearer tok-m'') m = Inr ex_mixed"
  by (simp add: authenticate_def accessToken_def ex_getUser_def ex_mixed_def)

text \<open>What the handler decides, for a caller that is authenticated and a session that
  exists: the owner or an identity whose email is, character for character, the email of a
  roster entry.\<close>

lemma get_session_decision:
  assumes "authenticate getUser hdr ''Missing authorization token'' = Inr u"
      and "validateUUID sessionId"
      and "kv_get (sessions s) (sessionKey sessionId) = Some x"
  shows "get_session getUser hdr sessionId s =
           (if organizerId x = user_id u \<or>
               list_ex (\<lambda>st. Some (email st) = user_email u) (students x)
            then Inr x else Inl (Error 403 ''Forbidden''))"
  using assms by (auto simp: get_session_def isStudentOf_def Let_def)













text \<open>For an identity whose email has capital letters the strict comparison of the handler
  and the lower-casing comparison of \<open>GET /sessions\<close> part ways: the latter lists the session,
  the former answers 403.\<close>

lemma get_session_mixed_case_identity:
  "get_session ex_getUser (Some ''Bearer tok-m'') ex_sid (ex_store ''reflection'')
     = Inl (Error 403 ''Forbidden'') \<and>
   get_sessions ex_getUser (Some ''Bearer tok-m'') (ex_store ''reflection'')
     = Inr [ex_session ''reflection'']"
proof -
  have 1: "get_session ex_getUser (Some ''Bearer tok-m'') ex_sid (ex_store ''reflection'')
     = Inl (Error 403 ''Forbidden'')"
    by (simp add: get_session_decision [OF ex_auth_m ex_sid_valid ex_lookup])
       (simp add: ex_session_def ex_roster_def ex_mixed_def)
  have 2: "list_ex (\<lambda>st. Some (toLowerCase (email st)) =
                 map_option toLowerCase (user_email ex_mixed))
             (students (ex_session ''reflection''))"
    by (simp add: ex_session_def ex_roster_def ex_mixed_def ex_lower_A_eq ex_lower_a)
  have 3: "get_sessions ex_getUser (Some ''Bearer tok-m'') (ex_store ''reflection'')
     = Inr [ex_session ''reflection'']"
    using 2
    by (simp add: get_sessions_def ex_auth_m kv_getByPrefix_def ex_store_def sessionKey_def)
  from 1 3 show ?thesis by simp
qed

subsection \<open>Session creation\<close>

text \<open>What the handler decides, for every request: the only facts about the caller that
  it consults are whether the token resolves to an identity with an id.\<close>

lemma post_session_decision:
  "post_session getUser hdr body now newId s =
     (case authenticate getUser hdr ''Missing authorization token'' of
        Inl e \<Rightarrow> (Inl e, s)
      | Inr u \<Rightarrow>
          (case body of
             None \<Rightarrow> (Inl (Error 400 ''Invalid JSON body''), s)
           | Some JNull \<Rightarrow> (Inl (Error 500 ''Failed to create session''), s)
           | Some b \<Rightarrow>
               (case field ''name'' b of
                  Some (JStr n) \<Rightarrow>
                    if 1 \<le> length (trim n) \<and> length n \<le> 200
                    then (Inr \<lparr>session_id = newId, organizerId = user_id u,
                            organizerEmail = user_email u, session_name = sanitizeString n,
                            status = ''setup'', students = [], createdAt = now,
                            startedAt = None, advancedAt = None, completedAt = None,
                            reopenedAt = None, archivedAt = None\<rparr>,
                          s\<lparr>sessions := kv_set (sessions s) (sessionKey newId)
                            \<lparr>session_id = newId, organizerId = user_id u,
                            organizerEmail = user_email u, session_name = sanitizeString n,
                            status = ''setup'', students = [], createdAt = now,
                            startedAt = None, advancedAt = None, completedAt = None,
                            reopenedAt = None, archivedAt = None\<rparr>\<rparr>)
                    else (Inl (Error 400
                            ''Session name must be between 1 and 200 characters''), s)
                | _ \<Rightarrow> (Inl (Error 400
                            ''Session name must be between 1 and 200 characters''), s))))"
  by (auto simp: post_session_def validateSessionName_def Let_def
           split: sum.splits option.splits json.splits)

lemma authenticate_401:
  "authenticate getUser hdr m = Inl e \<Longrightarrow> \<exists>msg. e = Error 401 msg"
  by (auto simp: authenticate_def split: option.splits if_splits)

text \<open>
  C4. The parts of the claim on the name, on the 401 and on the status of the new session
  hold (see \<open>post_session_decision\<close> and \<open>authenticate_401\<close>). The part on the caller does
  not: the handler, which its own comment calls organizer only, never reads the role of the
  identity. In the scenario Alice, whose role is \<open>student\<close>, creates a session and owns it.
\<close>

theorem C4_student_creates_session:
  "user_role ex_alice = Some ''student'' \<and>
   post_session ex_getUser (Some ''Bearer tok-a'') (Some (JObj [(''name'', JStr ''Demo'')]))
       ''t0'' ex_sid empty_store =
     (Inr ((ex_session ''setup'')\<lparr>organizerId := ''u-a'', organizerEmail := Some ''a@x.com'',
             students := []\<rparr>),
      \<lparr>sessions = [(sessionKey ex_sid,
           (ex_session ''setup'')\<lparr>organizerId := ''u-a'', organizerEmail := Some ''a@x.com'',
             students := []\<rparr>)],
       reflections = [], feedbacks = []\<rparr>)"
proof -
  have a: "authenticate ex_getUser (Some ''Bearer tok-a'') m = Inr ex_alice" for m
    by (simp add: authenticate_def accessToken_def ex_getUser_def ex_alice_def)
  show ?thesis
    by (simp add: post_session_decision a)
       (simp add: trim_def isWhiteSpace_def sanitizeString_def ex_alice_def ex_session_def
          empty_store_def)
qed

subsection \<open>The completion sentinel\<close>

lemma str_includes_iff: "str_includes s t = (\<exists>a b. s = a @ t @ b)"
proof (induction s)
  case Nil
  show ?case by auto
next
  case (Cons c cs)
  show ?case
  proof
    assume "str_includes (c # cs) t"
    then consider "prefix t (c # cs)" | "str_includes cs t" by auto
    then show "\<exists>a b. c # cs = a @ t @ b"
    proof cases
      case 1
      then obtain b where "c # cs = t @ b" by (auto simp: prefix_def)
      then have "c # cs = [] @ t @ b" by simp
      then show ?thesis by blast
    next
      case 2
      with Cons.IH obtain a b where "cs = a @ t @ b" by blast
      then have "c # cs = (c # a) @ t @ b" by simp
      then show ?thesis by blast
    qed
  next
    assume "\<exists>a b. c # cs = a @ t @ b"
    then obtain a b where ab: "c # cs = a @ t @ b" by blast
    show "str_includes (c # cs) t"
    proof (cases a)
      case Nil
      with ab have "prefix t (c # cs)" by (simp add: prefix_def)
      then show ?thesis by simp
    next
      case (Cons a' as)
      with ab have "cs = as @ t @ b" by simp
      with Cons.IH have "str_includes cs t" by blast
      then show ?thesis by simp
    qed
  qed
qed

lemma isComplete_iff:
  "isComplete (ai_reflection_reply r) = (\<exists>a b. r = a @ REFLECTION_COMPLETE @ b)"
  by (simp add: ai_reflection_reply_def Let_def str_includes_iff)

text \<open>
  C8. The flag is set exactly when the reply contains the token (\<open>isComplete_iff\<close>), but
  the token is stripped once only: \<open>replace\<close> with a string pattern removes the first
  occurrence. A reply that contains the token twice is returned with the second one left in
  the message.
\<close>

theorem C8_sentinel_stripped_once:
  "ai_reflection_reply ''Done [REFLECTION_COMPLETE] [REFLECTION_COMPLETE]'' =
     \<lparr>message = ''Done  [REFLECTION_COMPLETE]'', isComplete = True\<rparr> \<and>
   str_includes (message (ai_reflection_reply
       ''Done [REFLECTION_COMPLETE] [REFLECTION_COMPLETE]'')) REFLECTION_COMPLETE"
  by (simp add: ai_reflection_reply_def REFLECTION_COMPLETE_def trim_def isWhiteSpace_def
        Let_def)

end
